theory Spec2Isabelle
  imports Main "HOL-Library.Sublist"
begin

section \<open>The news fetcher of the portfolio page (src/js/news-fetcher.js)\<close>

text \<open>
  The module keeps four module-level variables (\<open>allNews\<close>, \<open>displayedNews\<close>,
  \<open>currentFilter\<close>, \<open>currentPage\<close>), two \<open>localStorage\<close> keys and a handful of DOM
  elements. The model passes all of them around in one record, \<open>page\<close>. What the
  browser supplies (the URL parser, the date parser, the DOM's text extraction, JSON, the
  clock and the network) is a parameter of every function that uses it: the records
  \<open>platform\<close> and \<open>env\<close>. The theorems hold for every platform and environment.
  The source file holds two revisions of the module; the model follows the first, the one
  with the modal. The second has the same helpers, normalisation, cache check and
  pagination, and writes \<open>sanitizeURL(article.link)\<close> into the card instead of the
  modal.

  Modelling decisions:
  \<^item> a JavaScript string is a \<open>string\<close> (a list of bytes); \<open>toLowerCase\<close> maps
    \<open>A\<close>..\<open>Z\<close> to \<open>a\<close>..\<open>z\<close> and leaves every other byte alone;
  \<^item> a field of a feed item is a string or absent (\<open>string option\<close>); \<open>a || b\<close> takes
    \<open>b\<close> when \<open>a\<close> is absent or the empty string, as JavaScript does;
  \<^item> a number that may be \<open>NaN\<close> is an \<open>int option\<close>, \<open>None\<close> being \<open>NaN\<close>;
  \<^item> a JSON body is \<open>null\<close> or an object with \<open>status\<close> and \<open>items\<close>; reading
    \<open>result.status\<close> of \<open>null\<close> throws a \<open>TypeError\<close>, which is the exception the
    outer \<open>catch\<close> of \<open>fetchAINews\<close> receives in the model; \<open>JSON.parse\<close> throws a
    \<open>SyntaxError\<close>;
  \<^item> every request settles (\<open>Promise.all\<close> returns).
\<close>

subsection \<open>Strings\<close>

text \<open>\<open>a || b\<close> on a string that may be absent, and the truthiness test \<open>a ? .. : ..\<close>.\<close>

definition truthy :: "string option \<Rightarrow> bool" where
  "truthy v = (case v of None \<Rightarrow> False | Some s \<Rightarrow> s \<noteq> [])"

definition or_else :: "string option \<Rightarrow> string \<Rightarrow> string" where
  "or_else v d = (case v of None \<Rightarrow> d | Some s \<Rightarrow> if s = [] then d else s)"

definition lower_char :: "char \<Rightarrow> char" where
  "lower_char c =
     (case map_of (zip ''ABCDEFGHIJKLMNOPQRSTUVWXYZ'' ''abcdefghijklmnopqrstuvwxyz'') c of
        Some l \<Rightarrow> l
      | None \<Rightarrow> c)"

definition toLowerCase :: "string \<Rightarrow> string" where
  "toLowerCase s = map lower_char s"

fun starts_with :: "string \<Rightarrow> string \<Rightarrow> bool" where
  "starts_with s [] = True"
| "starts_with [] (c # t) = False"
| "starts_with (d # s) (c # t) = (d = c \<and> starts_with s t)"

text \<open>\<open>s.includes(t)\<close>: \<open>t\<close> occurs in \<open>s\<close> as a contiguous run.\<close>

fun str_includes :: "string \<Rightarrow> string \<Rightarrow> bool" where
  "str_includes [] t = (t = [])"
| "str_includes (c # s) t = (starts_with (c # s) t \<or> str_includes s t)"

subsection \<open>Numbers and strings: \<open>parseInt\<close>, \<open>toString\<close>, \<open>encodeURIComponent\<close>\<close>

definition is_space :: "char \<Rightarrow> bool" where
  "is_space c = ((of_char c :: nat) \<in> {9, 10, 11, 12, 13, 32})"

definition digit_value :: "char \<Rightarrow> nat option" where
  "digit_value c =
     (let n = (of_char c :: nat) in
      if 48 \<le> n \<and> n \<le> 57 then Some (n - 48)
      else if 97 \<le> n \<and> n \<le> 102 then Some (n - 87)
      else if 65 \<le> n \<and> n \<le> 70 then Some (n - 55)
      else None)"

text \<open>The longest run of digits of the radix; \<open>None\<close> when there is no digit.\<close>

fun parse_digits :: "nat \<Rightarrow> string \<Rightarrow> nat option \<Rightarrow> nat option" where
  "parse_digits r [] acc = acc"
| "parse_digits r (c # cs) acc =
     (case digit_value c of
        None \<Rightarrow> acc
      | Some d \<Rightarrow>
          if d < r
          then parse_digits r cs (Some (case acc of None \<Rightarrow> d | Some a \<Rightarrow> a * r + d))
          else acc)"

text \<open>
  \<open>parseInt(s)\<close> with no radix: leading white space, a sign, an optional \<open>0x\<close>, then
  digits; \<open>NaN\<close> when no digit follows.
\<close>

definition parseInt :: "string \<Rightarrow> int option" where
  "parseInt s =
     (let t = dropWhile is_space s;
          neg = (case t of c # r \<Rightarrow> c = CHR ''-'' | [] \<Rightarrow> False);
          u = (case t of c # r \<Rightarrow> if c = CHR ''-'' \<or> c = CHR ''+'' then r else t | [] \<Rightarrow> t);
          hex = (case u of a # b # r \<Rightarrow> a = CHR ''0'' \<and> (b = CHR ''x'' \<or> b = CHR ''X'') | _ \<Rightarrow> False);
          v = (if hex then drop 2 u else u)
      in case parse_digits (if hex then 16 else 10) v None of
           None \<Rightarrow> None
         | Some n \<Rightarrow> Some (if neg then - int n else int n))"

fun digits_of :: "nat \<Rightarrow> string" where
  "digits_of n =
     (if n < 10 then [''0123456789'' ! n]
      else digits_of (n div 10) @ [''0123456789'' ! (n mod 10)])"

declare digits_of.simps [simp del]

text \<open>\<open>n.toString()\<close> of an integer (below the magnitude where JavaScript switches to
  exponent notation).\<close>

definition number_toString :: "int \<Rightarrow> string" where
  "number_toString i = (if i < 0 then CHR ''-'' # digits_of (nat (- i)) else digits_of (nat i))"

text \<open>The characters \<open>encodeURIComponent\<close> leaves alone: letters, digits and
  \<open>- _ . ! ~ * ' ( )\<close>.\<close>

definition unreserved :: "char \<Rightarrow> bool" where
  "unreserved c =
     (let n = (of_char c :: nat) in
      (65 \<le> n \<and> n \<le> 90) \<or> (97 \<le> n \<and> n \<le> 122) \<or> (48 \<le> n \<and> n \<le> 57)
      \<or> n \<in> {45, 95, 46, 33, 126, 42, 39, 40, 41})"

definition hex_digit :: "nat \<Rightarrow> char" where
  "hex_digit n = ''0123456789ABCDEF'' ! (n mod 16)"

definition encode_char :: "char \<Rightarrow> string" where
  "encode_char c =
     (if unreserved c then [c]
      else [CHR ''%'', hex_digit ((of_char c :: nat) div 16), hex_digit (of_char c :: nat)])"

definition encodeURIComponent :: "string \<Rightarrow> string" where
  "encodeURIComponent s = concat (map encode_char s)"

subsection \<open>Configuration constants\<close>

definition CACHE_DURATION_MS :: int where
  "CACHE_DURATION_MS = 3600000"

definition DESCRIPTION_MAX_LENGTH :: nat where
  "DESCRIPTION_MAX_LENGTH = 150"

definition NEWS_PER_PAGE :: nat where
  "NEWS_PER_PAGE = 9"

definition RSS_FEEDS :: "string list" where
  "RSS_FEEDS =
     [''https://techcrunch.com/tag/artificial-intelligence/feed/'',
      ''https://venturebeat.com/category/ai/feed/'',
      ''https://www.theverge.com/rss/ai-artificial-intelligence/index.xml'']"

definition RSS2JSON_API :: string where
  "RSS2JSON_API = ''https://api.rss2json.com/v1/api.json?rss_url=''"

text \<open>The URL the source writes out as a literal in \<open>sanitizeURL\<close>, in the image
  fallback of the normalisation and in the two image error handlers.\<close>

definition fallback_url :: string where
  "fallback_url =
     ''https://images.unsplash.com/photo-1677442136019-21780ecad995?w=600&h=400&fit=crop''"

subsection \<open>Data\<close>

record article =
  title :: string
  description :: string
  link :: string
  pubDate :: string
  source :: string
  image_url :: string
  category :: string

text \<open>A feed item as the conversion service returns it; \<open>item_enclosure_link\<close> is
  \<open>item.enclosure?.link\<close>.\<close>

record raw_item =
  item_title :: "string option"
  item_description :: "string option"
  item_link :: "string option"
  item_pubDate :: "string option"
  item_author :: "string option"
  item_thumbnail :: "string option"
  item_enclosure_link :: "string option"

record feed_result =
  status :: string
  items :: "raw_item list option"

datatype json_body = Null | Object feed_result

datatype fetch_outcome = Rejected | Resolved json_body

datatype exn = TypeError | SyntaxError

record parsed_url =
  protocol :: string
  hostname :: string

text \<open>
  The browser's functions: \<open>new URL(s)\<close> (\<open>None\<close> when it throws), the time value of
  \<open>new Date(s)\<close> (\<open>None\<close> for an invalid date), the \<open>textContent\<close> and
  \<open>innerText\<close> of a detached \<open>div\<close> whose \<open>innerHTML\<close> was set to the string,
  \<open>JSON.parse\<close> of a stored collection (\<open>None\<close> when it throws) and
  \<open>JSON.stringify\<close>.
\<close>

record platform =
  url_parse :: "string \<Rightarrow> parsed_url option"
  date_parse :: "string \<Rightarrow> int option"
  text_content :: "string \<Rightarrow> string"
  inner_text :: "string \<Rightarrow> string"
  JSON_parse :: "string \<Rightarrow> article list option"
  JSON_stringify :: "article list \<Rightarrow> string"

text \<open>
  One call of \<open>fetchAINews\<close>: \<open>now\<close> is \<open>new Date().getTime()\<close> at the cache check,
  \<open>clock_iso n\<close> is \<open>new Date().toISOString()\<close> at the moment \<open>n\<close> articles have been
  pushed, \<open>network u\<close> is how the request to \<open>u\<close> settles (\<open>Rejected\<close> covers a
  transport failure and a body that is not JSON).
\<close>

record env =
  now :: int
  clock_iso :: "nat \<Rightarrow> string"
  network :: "string \<Rightarrow> fetch_outcome"

text \<open>A rendered card: the \<open>src\<close> of its image and the article it shows.\<close>

record card =
  card_image :: string
  card_article :: article

text \<open>
  The module's variables, the two storage keys, the DOM (\<open>xHidden\<close>: the element's class
  list has \<open>hidden\<close>; \<open>searchInput\<close>: the value of the search box, \<open>None\<close> when the
  element is missing), the modal, and the log of the URLs passed to \<open>fetch\<close>. The
  "last updated" label, the card's escaped texts and the modal's meta line are not part
  of the model.
\<close>

record page =
  allNews :: "article list"
  displayedNews :: "article list"
  currentFilter :: string
  currentPage :: nat
  aiNewsCache :: "string option"
  aiNewsCacheTime :: "string option"
  searchInput :: "string option"
  loadingHidden :: bool
  errorHidden :: bool
  gridHidden :: bool
  loadMoreHidden :: bool
  newsGrid :: "card list"
  modalTitle :: string
  modalImage :: string
  modalLink :: string
  modalOpen :: bool
  requests :: "string list"

subsection \<open>The helpers: \<open>stripHTML\<close>, \<open>sanitizeURL\<close>, \<open>getHostname\<close>, \<open>categorizeArticle\<close>\<close>

text \<open>\<open>return temp.textContent || temp.innerText || ''\<close>\<close>

definition stripHTML :: "platform \<Rightarrow> string \<Rightarrow> string" where
  "stripHTML P str =
     (if text_content P str \<noteq> [] then text_content P str
      else if inner_text P str \<noteq> [] then inner_text P str
      else [])"

text \<open>The \<open>try\<close> around \<open>new URL(url)\<close>: a URL that does not parse, and one whose
  protocol is neither \<open>http:\<close> nor \<open>https:\<close>, fall through to the fallback.\<close>

definition sanitizeURL :: "platform \<Rightarrow> string \<Rightarrow> string" where
  "sanitizeURL P url =
     (case url_parse P url of
        Some parsed \<Rightarrow>
          if protocol parsed = ''http:'' \<or> protocol parsed = ''https:'' then url
          else fallback_url
      | None \<Rightarrow> fallback_url)"

definition getHostname :: "platform \<Rightarrow> string \<Rightarrow> string" where
  "getHostname P url =
     (case url_parse P url of Some parsed \<Rightarrow> hostname parsed | None \<Rightarrow> ''Unknown Source'')"

definition categorizeArticle :: "string \<Rightarrow> string \<Rightarrow> string" where
  "categorizeArticle ttl descr =
     (let content = toLowerCase (ttl @ '' '' @ descr) in
      if str_includes content ''gpt'' \<or> str_includes content ''llm''
         \<or> str_includes content ''language model''
         \<or> str_includes content ''chatbot'' \<or> str_includes content ''chatgpt''
      then ''llm''
      else if str_includes content ''computer vision''
         \<or> str_includes content ''image recognition''
         \<or> str_includes content ''opencv'' \<or> str_includes content ''visual''
      then ''vision''
      else if str_includes content ''ethics'' \<or> str_includes content ''bias''
         \<or> str_includes content ''responsible'' \<or> str_includes content ''fairness''
      then ''ethics''
      else if str_includes content ''machine learning''
         \<or> str_includes content ''neural network''
         \<or> str_includes content ''deep learning'' \<or> str_includes content ''model''
      then ''ml''
      else ''ml'')"

subsection \<open>Normalisation, sort and deduplication\<close>

text \<open>The object pushed for one feed item; \<open>isoNow\<close> is \<open>new Date().toISOString()\<close>
  at that moment.\<close>

definition make_article :: "platform \<Rightarrow> string \<Rightarrow> raw_item \<Rightarrow> article" where
  "make_article P isoNow item =
     (let cat = categorizeArticle (or_else (item_title item) []) (or_else (item_description item) []);
          lnk = or_else (item_link item) ''#''
      in \<lparr> title = or_else (item_title item) ''Untitled'',
           description =
             (case item_description item of
                None \<Rightarrow> ''No description available''
              | Some d \<Rightarrow>
                  if d = [] then ''No description available''
                  else take DESCRIPTION_MAX_LENGTH (stripHTML P d) @ ''...''),
           link = lnk,
           pubDate = or_else (item_pubDate item) isoNow,
           source = or_else (item_author item) (getHostname P lnk),
           image_url =
             or_else (item_thumbnail item) (or_else (item_enclosure_link item) fallback_url),
           category = cat \<rparr>)"

text \<open>\<open>result.items.forEach(item => allNews.push(..))\<close>\<close>

fun push_items :: "platform \<Rightarrow> (nat \<Rightarrow> string) \<Rightarrow> raw_item list \<Rightarrow> article list \<Rightarrow> article list" where
  "push_items P clk [] acc = acc"
| "push_items P clk (item # rest) acc =
     push_items P clk rest (acc @ [make_article P (clk (length acc)) item])"

text \<open>\<open>results.forEach(result => ..)\<close>: \<open>Inl\<close> is the \<open>TypeError\<close> of reading
  \<open>status\<close> of \<open>null\<close>, with the articles pushed so far.\<close>

fun collect :: "platform \<Rightarrow> (nat \<Rightarrow> string) \<Rightarrow> json_body list \<Rightarrow> article list \<Rightarrow> article list + article list" where
  "collect P clk [] acc = Inr acc"
| "collect P clk (Null # rs) acc = Inl acc"
| "collect P clk (Object r # rs) acc =
     collect P clk rs
       (case items r of
          Some its \<Rightarrow> if status r = ''ok'' then push_items P clk its acc else acc
        | None \<Rightarrow> acc)"

text \<open>The comparator \<open>(a, b) => new Date(b.pubDate) - new Date(a.pubDate)\<close>;
  \<open>None\<close> is \<open>NaN\<close>.\<close>

definition compare_pubDate :: "platform \<Rightarrow> article \<Rightarrow> article \<Rightarrow> int option" where
  "compare_pubDate P a b =
     (case (date_parse P (pubDate b), date_parse P (pubDate a)) of
        (Some tb, Some ta) \<Rightarrow> Some (tb - ta)
      | _ \<Rightarrow> None)"

text \<open>
  \<open>Array.prototype.sort\<close> with a comparator is stable, reads a result above zero as
  "the first argument comes after the second" and reads \<open>NaN\<close> as zero. The model is
  the stable insertion sort. For a comparator that orders the elements consistently every
  conforming sort returns the same array as this one; for one that does not (an
  unparseable date among three or more articles) ECMAScript leaves the order to the
  implementation, and the model keeps the elements that compare as equal in place.
\<close>

definition comes_after :: "('a \<Rightarrow> 'a \<Rightarrow> int option) \<Rightarrow> 'a \<Rightarrow> 'a \<Rightarrow> bool" where
  "comes_after cmp x y = (case cmp x y of None \<Rightarrow> False | Some v \<Rightarrow> 0 < v)"

fun sort_insert :: "('a \<Rightarrow> 'a \<Rightarrow> int option) \<Rightarrow> 'a \<Rightarrow> 'a list \<Rightarrow> 'a list" where
  "sort_insert cmp x [] = [x]"
| "sort_insert cmp x (y # ys) =
     (if comes_after cmp x y then y # sort_insert cmp x ys else x # y # ys)"

definition js_sort :: "('a \<Rightarrow> 'a \<Rightarrow> int option) \<Rightarrow> 'a list \<Rightarrow> 'a list" where
  "js_sort cmp xs = foldr (sort_insert cmp) xs []"

text \<open>The \<open>filter\<close> with the \<open>seen\<close> set.\<close>

fun remove_duplicates :: "string set \<Rightarrow> article list \<Rightarrow> article list" where
  "remove_duplicates seen [] = []"
| "remove_duplicates seen (a # as) =
     (if title a \<in> seen then remove_duplicates seen as
      else a # remove_duplicates (insert (title a) seen) as)"

subsection \<open>Rendering and the view state\<close>

definition render_card :: "platform \<Rightarrow> article \<Rightarrow> card" where
  "render_card P a = \<lparr> card_image = sanitizeURL P (image_url a), card_article = a \<rparr>"

definition filtered_news :: "page \<Rightarrow> article list" where
  "filtered_news s =
     (let by_category =
            (if currentFilter s = ''all'' then allNews s
             else filter (\<lambda>a. category a = currentFilter s) (allNews s));
          searchTerm = (case searchInput s of None \<Rightarrow> [] | Some v \<Rightarrow> toLowerCase v)
      in if searchTerm \<noteq> []
         then filter (\<lambda>a. str_includes (toLowerCase (title a)) searchTerm
                         \<or> str_includes (toLowerCase (description a)) searchTerm) by_category
         else by_category)"

definition displayNews :: "platform \<Rightarrow> page \<Rightarrow> page" where
  "displayNews P s =
     (let displayed = filtered_news s;
          paginatedNews = take (currentPage s * NEWS_PER_PAGE) displayed
      in s\<lparr> loadingHidden := True,
            displayedNews := displayed,
            newsGrid := map (render_card P) paginatedNews,
            gridHidden := False,
            loadMoreHidden := \<not> (length paginatedNews < length displayed) \<rparr>)"

definition filterNews :: "platform \<Rightarrow> string \<Rightarrow> page \<Rightarrow> page" where
  "filterNews P cat s = displayNews P (s\<lparr> currentFilter := cat, currentPage := 1 \<rparr>)"

definition searchNews :: "platform \<Rightarrow> page \<Rightarrow> page" where
  "searchNews P s = displayNews P (s\<lparr> currentPage := 1 \<rparr>)"

definition loadMoreNews :: "platform \<Rightarrow> page \<Rightarrow> page" where
  "loadMoreNews P s = displayNews P (s\<lparr> currentPage := currentPage s + 1 \<rparr>)"

definition openArticleModal :: "platform \<Rightarrow> article \<Rightarrow> page \<Rightarrow> page" where
  "openArticleModal P a s =
     s\<lparr> modalTitle := title a,
        modalImage := sanitizeURL P (image_url a),
        modalLink := sanitizeURL P (link a),
        modalOpen := True \<rparr>"

definition closeArticleModal :: "page \<Rightarrow> page" where
  "closeArticleModal s = s\<lparr> modalOpen := False \<rparr>"

text \<open>The articles on the visible cards, in order.\<close>

definition visible_articles :: "page \<Rightarrow> article list" where
  "visible_articles s = map card_article (newsGrid s)"

subsection \<open>\<open>fetchAINews\<close>\<close>

text \<open>\<open>cachedData && cacheTime && (now - parseInt(cacheTime)) < CACHE_DURATION_MS\<close>\<close>

definition cache_is_fresh :: "env \<Rightarrow> page \<Rightarrow> bool" where
  "cache_is_fresh E s =
     (truthy (aiNewsCache s) \<and> truthy (aiNewsCacheTime s) \<and>
      (case aiNewsCacheTime s of
         None \<Rightarrow> False
       | Some t \<Rightarrow> (case parseInt t of None \<Rightarrow> False | Some n \<Rightarrow> now E - n < CACHE_DURATION_MS)))"

definition request_url :: "string \<Rightarrow> string" where
  "request_url feed = RSS2JSON_API @ encodeURIComponent feed"

text \<open>\<open>.catch(err => ({ status: 'error', items: [] }))\<close>\<close>

definition settle :: "fetch_outcome \<Rightarrow> json_body" where
  "settle outcome =
     (case outcome of
        Rejected \<Rightarrow> Object \<lparr> status = ''error'', items = Some [] \<rparr>
      | Resolved body \<Rightarrow> body)"

text \<open>The results of \<open>Promise.all\<close>, the articles pushed by the two nested
  \<open>forEach\<close> loops over them, and the collection after the sort and the removal of
  duplicates.\<close>

definition settled_bodies :: "env \<Rightarrow> json_body list" where
  "settled_bodies E = map (\<lambda>u. settle (network E u)) (map request_url RSS_FEEDS)"

definition pushed_articles :: "platform \<Rightarrow> env \<Rightarrow> article list + article list" where
  "pushed_articles P E = collect P (clock_iso E) (settled_bodies E) []"

definition final_collection :: "platform \<Rightarrow> article list \<Rightarrow> article list" where
  "final_collection P pushed = remove_duplicates {} (js_sort (compare_pubDate P) pushed)"

text \<open>The part of the \<open>try\<close> block after the cache check. \<open>Inl\<close> carries the exception
  and the state at the moment it was thrown.\<close>

definition fetch_fresh :: "platform \<Rightarrow> env \<Rightarrow> page \<Rightarrow> exn \<times> page + page" where
  "fetch_fresh P E s =
     (let s1 = s\<lparr> requests := requests s @ map request_url RSS_FEEDS, allNews := [] \<rparr>
      in case pushed_articles P E of
           Inl pushed \<Rightarrow> Inl (TypeError, s1\<lparr> allNews := pushed \<rparr>)
         | Inr pushed \<Rightarrow>
             (let news = final_collection P pushed
              in Inr (displayNews P
                        (s1\<lparr> allNews := news,
                             aiNewsCache := Some (JSON_stringify P news),
                             aiNewsCacheTime := Some (number_toString (now E)) \<rparr>))))"

text \<open>The inner \<open>try\<close>: \<open>allNews = JSON.parse(cachedData); displayNews(); return\<close>.\<close>

definition use_cache :: "platform \<Rightarrow> string \<Rightarrow> page \<Rightarrow> exn + page" where
  "use_cache P cachedData s =
     (case JSON_parse P cachedData of
        None \<Rightarrow> Inl SyntaxError
      | Some news \<Rightarrow> Inr (displayNews P (s\<lparr> allNews := news \<rparr>)))"

text \<open>The outer \<open>try\<close> block. What the inner \<open>try\<close> throws is caught by the inner
  \<open>catch\<close>, and the run goes on to the requests.\<close>

definition try_block :: "platform \<Rightarrow> env \<Rightarrow> page \<Rightarrow> exn \<times> page + page" where
  "try_block P E s =
     (if cache_is_fresh E s
      then (case aiNewsCache s of
              None \<Rightarrow> fetch_fresh P E s
            | Some cachedData \<Rightarrow>
                (case use_cache P cachedData s of
                   Inr s' \<Rightarrow> Inr s'
                 | Inl parseError \<Rightarrow> fetch_fresh P E s))
      else fetch_fresh P E s)"

definition fetchAINews :: "platform \<Rightarrow> env \<Rightarrow> page \<Rightarrow> page" where
  "fetchAINews P E s =
     (case try_block P E (s\<lparr> loadingHidden := False, errorHidden := True, gridHidden := True \<rparr>) of
        Inr s' \<Rightarrow> s'
      | Inl (error, s') \<Rightarrow> s'\<lparr> loadingHidden := True, errorHidden := False \<rparr>)"

subsection \<open>The notions the properties are stated with\<close>

text \<open>The keyword sets in the order the source tests them.\<close>

definition llm_keywords :: "string list" where
  "llm_keywords = [''gpt'', ''llm'', ''language model'', ''chatbot'', ''chatgpt'']"

definition vision_keywords :: "string list" where
  "vision_keywords = [''computer vision'', ''image recognition'', ''opencv'', ''visual'']"

definition ethics_keywords :: "string list" where
  "ethics_keywords = [''ethics'', ''bias'', ''responsible'', ''fairness'']"

definition ml_keywords :: "string list" where
  "ml_keywords = [''machine learning'', ''neural network'', ''deep learning'', ''model'']"

definition keyword_sets :: "(string \<times> string list) list" where
  "keyword_sets =
     [(''llm'', llm_keywords), (''vision'', vision_keywords),
      (''ethics'', ethics_keywords), (''ml'', ml_keywords)]"

text \<open>A keyword occurs in a text whatever the case of the text's letters: some
  contiguous run of the text is the keyword once lowered.\<close>

definition occurs_ignoring_case :: "string \<Rightarrow> string \<Rightarrow> bool" where
  "occurs_ignoring_case kw s = (\<exists>w. sublist w s \<and> toLowerCase w = kw)"

text \<open>The category of the first set, in that order, one of whose keywords occurs;
  \<open>ml\<close> when none does.\<close>

definition first_match :: "string \<Rightarrow> string" where
  "first_match content =
     (case find (\<lambda>(cat, kws). list_ex (\<lambda>kw. occurs_ignoring_case kw content) kws) keyword_sets of
        Some (cat, kws) \<Rightarrow> cat
      | None \<Rightarrow> ''ml'')"

text \<open>The string parses as a URL whose scheme is http or https.\<close>

definition parses_as_http :: "platform \<Rightarrow> string \<Rightarrow> bool" where
  "parses_as_http P url =
     (case url_parse P url of
        Some parsed \<Rightarrow> protocol parsed = ''http:'' \<or> protocol parsed = ''https:''
      | None \<Rightarrow> False)"

text \<open>The publish date of an article as a time value, an unparseable date read as the
  time \<open>t\<close>.\<close>

definition publish_time :: "platform \<Rightarrow> int \<Rightarrow> article \<Rightarrow> int" where
  "publish_time P t a = (case date_parse P (pubDate a) of Some v \<Rightarrow> v | None \<Rightarrow> t)"

text \<open>A settled request that contributes no article and throws nothing: an object
  whose status is not \<open>ok\<close> or that has no items.\<close>

definition unusable :: "json_body \<Rightarrow> bool" where
  "unusable body =
     (case body of Null \<Rightarrow> False | Object r \<Rightarrow> \<not> (status r = ''ok'' \<and> items r \<noteq> None))"

text \<open>A settled request from which the run pushes no article and that throws nothing:
  an object whose status is not \<open>ok\<close>, that has no items, or whose list of items is
  empty.\<close>

definition no_articles :: "json_body \<Rightarrow> bool" where
  "no_articles body =
     (case body of
        Null \<Rightarrow> False
      | Object r \<Rightarrow> status r \<noteq> ''ok'' \<or> items r = None \<or> items r = Some [])"

text \<open>The items of the results that pass \<open>result.status === 'ok' && result.items\<close>,
  in order.\<close>

fun feed_items :: "json_body list \<Rightarrow> raw_item list" where
  "feed_items [] = []"
| "feed_items (Null # rs) = feed_items rs"
| "feed_items (Object r # rs) =
     (case items r of
        Some its \<Rightarrow> if status r = ''ok'' then its @ feed_items rs else feed_items rs
      | None \<Rightarrow> feed_items rs)"

text \<open>The stored entry is one the run reuses: fresh, and \<open>JSON.parse\<close> reads it.\<close>

definition cache_is_valid :: "platform \<Rightarrow> env \<Rightarrow> page \<Rightarrow> bool" where
  "cache_is_valid P E s =
     (cache_is_fresh E s \<and>
      (case aiNewsCache s of None \<Rightarrow> False | Some d \<Rightarrow> JSON_parse P d \<noteq> None))"

subsection \<open>Concrete inputs\<close>

text \<open>
  A platform given by the values the browser's functions take on the strings the
  examples use (\<open>new URL('#')\<close> throws; \<open>new URL('javascript:alert(1)')\<close> has the
  protocol \<open>javascript:\<close> and an empty host name; the three dates are ISO strings and
  \<open>not a date\<close> is an invalid date). Outside those strings the entries are
  placeholders that no example reaches.
\<close>

definition sample_platform :: platform where
  "sample_platform =
     \<lparr> url_parse = (\<lambda>u.
         if u = ''https://example.com/a''
         then Some \<lparr> protocol = ''https:'', hostname = ''example.com'' \<rparr>
         else if u = fallback_url
         then Some \<lparr> protocol = ''https:'', hostname = ''images.unsplash.com'' \<rparr>
         else if u = ''javascript:alert(1)''
         then Some \<lparr> protocol = ''javascript:'', hostname = [] \<rparr>
         else None),
       date_parse = (\<lambda>d.
         if d = ''2020-01-01T00:00:00.000Z'' then Some 1577836800000
         else if d = ''2023-01-01T00:00:00.000Z'' then Some 1672531200000
         else if d = ''2023-11-14T22:13:20.000Z'' then Some 1700000000000
         else None),
       text_content = (\<lambda>h. if h = ''<p>OpenAI ships...</p>'' then ''OpenAI ships...'' else h),
       inner_text = (\<lambda>h. if h = ''<p>OpenAI ships...</p>'' then ''OpenAI ships...'' else h),
       JSON_parse = (\<lambda>j. if j = ''[]'' then Some [] else None),
       JSON_stringify = (\<lambda>news. if news = [] then ''[]'' else ''[...]'') \<rparr>"

text \<open>The page when the script has loaded and nothing is stored.\<close>

definition initial_page :: page where
  "initial_page =
     \<lparr> allNews = [], displayedNews = [], currentFilter = ''all'', currentPage = 1,
       aiNewsCache = None, aiNewsCacheTime = None, searchInput = Some [],
       loadingHidden = False, errorHidden = True, gridHidden = True, loadMoreHidden = True,
       newsGrid = [], modalTitle = [], modalImage = [], modalLink = [], modalOpen = False,
       requests = [] \<rparr>"

text \<open>A page whose stored entry is an empty collection written at time \<open>t\<close>.\<close>

definition cached_page :: "string \<Rightarrow> page" where
  "cached_page t = initial_page\<lparr> aiNewsCache := Some ''[]'', aiNewsCacheTime := Some t \<rparr>"

text \<open>A page whose stored entry is a one-article collection written long ago.\<close>

definition stale_page :: page where
  \<open>stale_page =
     initial_page\<lparr> aiNewsCache := Some ''[{"title":"Old news"}]'',
                   aiNewsCacheTime := Some ''1600000000000'' \<rparr>\<close>

text \<open>A page whose stored collection is not JSON.\<close>

definition corrupt_page :: page where
  "corrupt_page =
     initial_page\<lparr> aiNewsCache := Some ''[{'', aiNewsCacheTime := Some ''1699999000000'' \<rparr>"

text \<open>A run at time 1700000000000 (2023-11-14T22:13:20Z) in which the first feed
  returns the given body and the requests for the other two fail.\<close>

definition first_feed_env :: "json_body \<Rightarrow> env" where
  "first_feed_env body =
     \<lparr> now = 1700000000000,
       clock_iso = (\<lambda>n. ''2023-11-14T22:13:20.000Z''),
       network = (\<lambda>u.
         if u = request_url ''https://techcrunch.com/tag/artificial-intelligence/feed/''
         then Resolved body else Rejected) \<rparr>"

text \<open>A run in which every request fails.\<close>

definition offline_env :: env where
  "offline_env =
     \<lparr> now = 1700000000000,
       clock_iso = (\<lambda>n. ''2023-11-14T22:13:20.000Z''),
       network = (\<lambda>u. Rejected) \<rparr>"

definition ok_body :: "raw_item list \<Rightarrow> json_body" where
  "ok_body its = Object \<lparr> status = ''ok'', items = Some its \<rparr>"

text \<open>A feed item with a title and a publish date and nothing else.\<close>

definition dated_item :: "string \<Rightarrow> string option \<Rightarrow> raw_item" where
  "dated_item t d =
     \<lparr> item_title = Some t, item_description = None, item_link = None, item_pubDate = d,
       item_author = None, item_thumbnail = None, item_enclosure_link = None \<rparr>"

text \<open>The item of the specification's example.\<close>

definition example_item :: raw_item where
  "example_item =
     \<lparr> item_title = Some ''New GPT model released'',
       item_description = Some ''<p>OpenAI ships...</p>'',
       item_link = Some ''javascript:alert(1)'',
       item_pubDate = None, item_author = None, item_thumbnail = None,
       item_enclosure_link = None \<rparr>"

text \<open>An article with the given title and category.\<close>

definition plain_article :: "string \<Rightarrow> string \<Rightarrow> article" where
  "plain_article t c =
     \<lparr> title = t, description = ''No description available'', link = ''#'',
       pubDate = ''2023-01-01T00:00:00.000Z'', source = ''Unknown Source'',
       image_url = fallback_url, category = c \<rparr>"

text \<open>A page holding twenty-five articles, no filter and no search term.\<close>

definition twenty_five_page :: page where
  "twenty_five_page = initial_page\<lparr> allNews := replicate 25 (plain_article ''News'' ''ml'') \<rparr>"

text \<open>Three feeds: two items with the same title around an item with no date; the same
  around an item whose date does not parse; and an old item before such an item.\<close>

definition dated_feed :: "raw_item list" where
  "dated_feed =
     [dated_item ''Same title'' (Some ''2020-01-01T00:00:00.000Z''),
      dated_item ''Other title'' None,
      dated_item ''Same title'' (Some ''2023-01-01T00:00:00.000Z'')]"

definition undated_feed :: "raw_item list" where
  "undated_feed =
     [dated_item ''Same title'' (Some ''2020-01-01T00:00:00.000Z''),
      dated_item ''Other title'' (Some ''not a date''),
      dated_item ''Same title'' (Some ''2023-01-01T00:00:00.000Z'')]"

definition two_item_feed :: "raw_item list" where
  "two_item_feed =
     [dated_item ''Old story'' (Some ''2020-01-01T00:00:00.000Z''),
      dated_item ''Undated story'' (Some ''not a date'')]"

text \<open>A feed of two items with the same title, the second with a date that does not
  parse.\<close>

definition undated_duplicate_feed :: "raw_item list" where
  "undated_duplicate_feed =
     [dated_item ''Same title'' (Some ''2020-01-01T00:00:00.000Z''),
      dated_item ''Same title'' (Some ''not a date'')]"

section \<open>Lemmas\<close>

subsection \<open>Substrings\<close>

lemma starts_with_prefix: "starts_with s t \<longleftrightarrow> prefix t s"
  by (induction s t rule: starts_with.induct) auto

lemma str_includes_sublist: "str_includes s t \<longleftrightarrow> sublist t s"
  by (induction s) (auto simp: starts_with_prefix sublist_Cons_right)

lemma sublist_map_iff: "sublist ys (map f xs) \<longleftrightarrow> (\<exists>w. sublist w xs \<and> map f w = ys)"
proof
  assume "sublist ys (map f xs)"
  then obtain ps ss where "map f xs = ps @ ys @ ss" by (auto simp: sublist_def)
  then obtain a b where ab: "xs = a @ b" "map f a = ps" "map f b = ys @ ss"
    by (metis map_eq_append_conv)
  from ab(3) obtain w c where "b = w @ c" "map f w = ys" "map f c = ss"
    by (metis map_eq_append_conv)
  with ab have "sublist w xs" "map f w = ys" by (auto simp: sublist_def)
  then show "\<exists>w. sublist w xs \<and> map f w = ys" by blast
next
  assume "\<exists>w. sublist w xs \<and> map f w = ys"
  then obtain w ps ss where "xs = ps @ w @ ss" "map f w = ys" by (auto simp: sublist_def)
  then have "map f xs = map f ps @ ys @ map f ss" by simp
  then show "sublist ys (map f xs)" unfolding sublist_def by blast
qed

lemma includes_lower: "str_includes (toLowerCase s) kw \<longleftrightarrow> occurs_ignoring_case kw s"
  by (simp add: str_includes_sublist occurs_ignoring_case_def toLowerCase_def sublist_map_iff)

subsection \<open>Sorting\<close>

lemma set_sort_insert: "set (sort_insert cmp x ys) = insert x (set ys)"
  by (induction ys) auto

lemma set_js_sort: "set (js_sort cmp xs) = set xs"
  by (induction xs) (auto simp: js_sort_def set_sort_insert)

lemma length_sort_insert: "length (sort_insert cmp x ys) = Suc (length ys)"
  by (induction ys) auto

lemma length_js_sort: "length (js_sort cmp xs) = length xs"
  by (induction xs) (auto simp: js_sort_def length_sort_insert)

lemma comes_after_pubDate:
  "date_parse P (pubDate x) = Some tx \<Longrightarrow> date_parse P (pubDate y) = Some ty \<Longrightarrow>
   comes_after (compare_pubDate P) x y \<longleftrightarrow> tx < ty"
  by (simp add: comes_after_def compare_pubDate_def)

lemma publish_time_parsed:
  "date_parse P (pubDate a) = Some v \<Longrightarrow> publish_time P t a = v"
  by (simp add: publish_time_def)

lemma sorted_sort_insert:
  assumes "\<forall>a \<in> insert x (set ys). date_parse P (pubDate a) \<noteq> None"
    and "sorted_wrt (\<lambda>a b. publish_time P t b \<le> publish_time P t a) ys"
  shows "sorted_wrt (\<lambda>a b. publish_time P t b \<le> publish_time P t a)
           (sort_insert (compare_pubDate P) x ys)"
  using assms
proof (induction ys)
  case Nil
  then show ?case by simp
next
  case (Cons y ys)
  from Cons.prems(1) obtain tx ty where tx: "date_parse P (pubDate x) = Some tx"
    and ty: "date_parse P (pubDate y) = Some ty" by auto
  show ?case
  proof (cases "comes_after (compare_pubDate P) x y")
    case True
    then have "tx < ty" using tx ty by (simp add: comes_after_pubDate)
    moreover have "sorted_wrt (\<lambda>a b. publish_time P t b \<le> publish_time P t a)
           (sort_insert (compare_pubDate P) x ys)"
      using Cons by simp
    ultimately show ?thesis using True Cons.prems(2) tx ty
      by (auto simp: set_sort_insert publish_time_parsed)
  next
    case False
    then have "ty \<le> tx" using tx ty by (simp add: comes_after_pubDate)
    then show ?thesis using False Cons.prems(2) tx ty
      by (auto simp: publish_time_parsed)
  qed
qed

lemma sorted_js_sort:
  "\<forall>a \<in> set xs. date_parse P (pubDate a) \<noteq> None \<Longrightarrow>
   sorted_wrt (\<lambda>a b. publish_time P t b \<le> publish_time P t a) (js_sort (compare_pubDate P) xs)"
proof (induction xs)
  case Nil
  then show ?case by (simp add: js_sort_def)
next
  case (Cons x xs)
  then have "sorted_wrt (\<lambda>a b. publish_time P t b \<le> publish_time P t a) (js_sort (compare_pubDate P) xs)"
    by simp
  moreover have "\<forall>a \<in> insert x (set (js_sort (compare_pubDate P) xs)). date_parse P (pubDate a) \<noteq> None"
    using Cons.prems by (simp add: set_js_sort)
  ultimately have "sorted_wrt (\<lambda>a b. publish_time P t b \<le> publish_time P t a)
     (sort_insert (compare_pubDate P) x (js_sort (compare_pubDate P) xs))"
    by (rule sorted_sort_insert[rotated])
  then show ?case by (simp add: js_sort_def)
qed

text \<open>With parseable dates the model is the library's stable sort by descending time.\<close>

lemma sort_insert_insort_key:
  assumes "\<forall>a \<in> insert x (set ys). date_parse P (pubDate a) \<noteq> None"
  shows "sort_insert (compare_pubDate P) x ys = insort_key (\<lambda>a. - publish_time P t a) x ys"
  using assms
proof (induction ys)
  case Nil
  then show ?case by simp
next
  case (Cons y ys)
  from Cons.prems(1) obtain tx ty where tx: "date_parse P (pubDate x) = Some tx"
    and ty: "date_parse P (pubDate y) = Some ty" by auto
  then show ?case using Cons
    by (auto simp: comes_after_pubDate publish_time_parsed)
qed

lemma js_sort_sort_key:
  "\<forall>a \<in> set xs. date_parse P (pubDate a) \<noteq> None \<Longrightarrow>
   js_sort (compare_pubDate P) xs = sort_key (\<lambda>a. - publish_time P t a) xs"
proof (induction xs)
  case Nil
  then show ?case by (simp add: js_sort_def)
next
  case (Cons x xs)
  then have IH: "js_sort (compare_pubDate P) xs = sort_key (\<lambda>a. - publish_time P t a) xs" by simp
  have "sort_insert (compare_pubDate P) x (js_sort (compare_pubDate P) xs)
        = insort_key (\<lambda>a. - publish_time P t a) x (js_sort (compare_pubDate P) xs)"
    using Cons.prems by (intro sort_insert_insort_key) (simp add: set_js_sort)
  then show ?case using IH by (simp add: js_sort_def)
qed

subsection \<open>Removing duplicates\<close>

lemma set_remove_duplicates_subset: "set (remove_duplicates seen xs) \<subseteq> set xs"
  by (induction xs arbitrary: seen) auto

lemma titles_remove_duplicates:
  "title ` set (remove_duplicates seen xs) = title ` set xs - seen"
  by (induction xs arbitrary: seen) auto

lemma distinct_remove_duplicates: "distinct (map title (remove_duplicates seen xs))"
  by (induction xs arbitrary: seen) (auto simp: titles_remove_duplicates)

lemma sorted_wrt_remove_duplicates:
  "sorted_wrt R xs \<Longrightarrow> sorted_wrt R (remove_duplicates seen xs)"
proof (induction xs arbitrary: seen)
  case Nil
  then show ?case by simp
next
  case (Cons a as)
  then show ?case using set_remove_duplicates_subset[of "insert (title a) seen" as]
    by auto
qed

lemma remove_duplicates_first:
  "a \<in> set (remove_duplicates seen xs) \<Longrightarrow>
   \<exists>ys zs. xs = ys @ a # zs \<and> title a \<notin> title ` set ys \<and> title a \<notin> seen"
proof (induction xs arbitrary: seen)
  case Nil
  then show ?case by simp
next
  case (Cons x xs)
  show ?case
  proof (cases "title x \<in> seen")
    case True
    with Cons.prems have "a \<in> set (remove_duplicates seen xs)" by simp
    from Cons.IH[OF this] obtain ys zs where
      "xs = ys @ a # zs" "title a \<notin> title ` set ys" "title a \<notin> seen" by blast
    with True have "x # xs = (x # ys) @ a # zs \<and> title a \<notin> title ` set (x # ys) \<and> title a \<notin> seen"
      by auto
    then show ?thesis by blast
  next
    case False
    show ?thesis
    proof (cases "a = x")
      case True
      with False have "x # xs = [] @ a # xs \<and> title a \<notin> title ` set [] \<and> title a \<notin> seen"
        by simp
      then show ?thesis by blast
    next
      case ne: False
      with False Cons.prems have "a \<in> set (remove_duplicates (insert (title x) seen) xs)" by simp
      from Cons.IH[OF this] obtain ys zs where
        "xs = ys @ a # zs" "title a \<notin> title ` set ys" "title a \<notin> insert (title x) seen" by blast
      then have "x # xs = (x # ys) @ a # zs \<and> title a \<notin> title ` set (x # ys) \<and> title a \<notin> seen"
        by auto
      then show ?thesis by blast
    qed
  qed
qed

lemma filter_distinct_key:
  "distinct (map f xs) \<Longrightarrow> x \<in> set xs \<Longrightarrow> filter (\<lambda>a. f a = f x) xs = [x]"
proof (induction xs)
  case Nil
  then show ?case by simp
next
  case (Cons y ys)
  show ?case
  proof (cases "x = y")
    case True
    with Cons.prems have "\<forall>a \<in> set ys. f a \<noteq> f x" by (fastforce simp: image_iff)
    then have "filter (\<lambda>a. f a = f x) ys = []" by (simp add: filter_empty_conv)
    with True show ?thesis by simp
  next
    case False
    with Cons.prems have "x \<in> set ys" "f y \<noteq> f x" by auto
    with Cons show ?thesis by simp
  qed
qed

subsection \<open>Collecting\<close>

lemma collect_Inl_iff: "(\<exists>p. collect P clk rs acc = Inl p) \<longleftrightarrow> Null \<in> set rs"
  by (induction P clk rs acc rule: collect.induct) auto

lemma collect_unusable:
  "\<forall>b \<in> set rs. unusable b \<Longrightarrow> collect P clk rs acc = Inr acc"
  by (induction P clk rs acc rule: collect.induct) (auto simp: unusable_def split: option.splits)

subsection \<open>The page after \<open>displayNews\<close>\<close>

lemma displayNews_fields:
  "allNews (displayNews P s) = allNews s"
  "currentFilter (displayNews P s) = currentFilter s"
  "currentPage (displayNews P s) = currentPage s"
  "searchInput (displayNews P s) = searchInput s"
  "aiNewsCache (displayNews P s) = aiNewsCache s"
  "aiNewsCacheTime (displayNews P s) = aiNewsCacheTime s"
  "errorHidden (displayNews P s) = errorHidden s"
  "requests (displayNews P s) = requests s"
  "loadingHidden (displayNews P s)"
  "\<not> gridHidden (displayNews P s)"
  "displayedNews (displayNews P s) = filtered_news s"
  by (simp_all add: displayNews_def Let_def)

lemma visible_displayNews:
  "visible_articles (displayNews P s) = take (currentPage s * NEWS_PER_PAGE) (filtered_news s)"
  by (simp add: visible_articles_def displayNews_def Let_def render_card_def comp_def)

lemma filtered_news_cong:
  "allNews s = allNews s' \<Longrightarrow> currentFilter s = currentFilter s' \<Longrightarrow>
   searchInput s = searchInput s' \<Longrightarrow> filtered_news s = filtered_news s'"
  by (simp add: filtered_news_def)

lemma cache_is_fresh_cong:
  "aiNewsCache s = aiNewsCache s' \<Longrightarrow> aiNewsCacheTime s = aiNewsCacheTime s' \<Longrightarrow>
   cache_is_fresh E s = cache_is_fresh E s'"
  by (simp add: cache_is_fresh_def)

subsection \<open>The run\<close>

lemma cache_is_valid_cong:
  "aiNewsCache s = aiNewsCache s' \<Longrightarrow> aiNewsCacheTime s = aiNewsCacheTime s' \<Longrightarrow>
   cache_is_valid P E s = cache_is_valid P E s'"
  by (simp add: cache_is_valid_def cache_is_fresh_def)

lemma try_block_valid:
  assumes "cache_is_valid P E s"
  shows "\<exists>d news. aiNewsCache s = Some d \<and> JSON_parse P d = Some news \<and>
           try_block P E s = Inr (displayNews P (s\<lparr> allNews := news \<rparr>))"
  using assms by (auto simp: cache_is_valid_def try_block_def use_cache_def split: option.splits)

lemma try_block_invalid:
  assumes "\<not> cache_is_valid P E s"
  shows "try_block P E s = fetch_fresh P E s"
  using assms by (auto simp: cache_is_valid_def try_block_def use_cache_def split: option.splits)

lemma fetch_fresh_Inr:
  assumes "pushed_articles P E = Inr pushed"
  shows "fetch_fresh P E s =
           Inr (displayNews P
                  (s\<lparr> requests := requests s @ map request_url RSS_FEEDS,
                      allNews := final_collection P pushed,
                      aiNewsCache := Some (JSON_stringify P (final_collection P pushed)),
                      aiNewsCacheTime := Some (number_toString (now E)) \<rparr>))"
  using assms by (simp add: fetch_fresh_def Let_def)

lemma fetch_fresh_Inl:
  assumes "pushed_articles P E = Inl pushed"
  shows "fetch_fresh P E s =
           Inl (TypeError, s\<lparr> requests := requests s @ map request_url RSS_FEEDS,
                               allNews := pushed \<rparr>)"
  using assms by (simp add: fetch_fresh_def Let_def)

lemma pushed_articles_cases:
  "(Null \<in> set (settled_bodies E) \<and> (\<exists>p. pushed_articles P E = Inl p)) \<or>
   (Null \<notin> set (settled_bodies E) \<and> (\<exists>p. pushed_articles P E = Inr p))"
  using collect_Inl_iff[of P "clock_iso E" "settled_bodies E" "[]"]
  by (cases "pushed_articles P E") (auto simp: pushed_articles_def)

lemma pushed_articles_unusable:
  "\<forall>b \<in> set (settled_bodies E). unusable b \<Longrightarrow> pushed_articles P E = Inr []"
  by (simp add: pushed_articles_def collect_unusable)

lemma final_collection_Nil: "final_collection P [] = []"
  by (simp add: final_collection_def js_sort_def)

lemma filtered_news_Nil: "allNews s = [] \<Longrightarrow> filtered_news s = []"
  by (simp add: filtered_news_def Let_def)

lemma newsGrid_displayNews_Nil: "allNews s = [] \<Longrightarrow> newsGrid (displayNews P s) = []"
  by (simp add: displayNews_def Let_def filtered_news_Nil)

text \<open>The page a run ends in, by the three ways through the \<open>try\<close> block.\<close>

lemma fetchAINews_cached:
  assumes "cache_is_valid P E s"
  shows "\<exists>d news. aiNewsCache s = Some d \<and> JSON_parse P d = Some news \<and>
           fetchAINews P E s =
             displayNews P (s\<lparr> loadingHidden := False, errorHidden := True, gridHidden := True,
                                allNews := news \<rparr>)"
proof -
  let ?s = "s\<lparr> loadingHidden := False, errorHidden := True, gridHidden := True \<rparr>"
  have "cache_is_valid P E ?s" using assms cache_is_valid_cong[of ?s s] by simp
  from try_block_valid[OF this] show ?thesis by (auto simp: fetchAINews_def)
qed

lemma fetchAINews_fresh:
  assumes "\<not> cache_is_valid P E s" and "pushed_articles P E = Inr pushed"
  shows "fetchAINews P E s =
           displayNews P
             (s\<lparr> loadingHidden := False, errorHidden := True, gridHidden := True,
                 requests := requests s @ map request_url RSS_FEEDS,
                 allNews := final_collection P pushed,
                 aiNewsCache := Some (JSON_stringify P (final_collection P pushed)),
                 aiNewsCacheTime := Some (number_toString (now E)) \<rparr>)"
proof -
  let ?s = "s\<lparr> loadingHidden := False, errorHidden := True, gridHidden := True \<rparr>"
  have "\<not> cache_is_valid P E ?s" using assms(1) cache_is_valid_cong[of ?s s] by simp
  then have "try_block P E ?s = fetch_fresh P E ?s" by (rule try_block_invalid)
  then show ?thesis using assms(2) by (simp add: fetchAINews_def fetch_fresh_Inr)
qed

lemma fetchAINews_thrown:
  assumes "\<not> cache_is_valid P E s" and "pushed_articles P E = Inl pushed"
  shows "fetchAINews P E s =
           s\<lparr> loadingHidden := True, errorHidden := False, gridHidden := True,
              requests := requests s @ map request_url RSS_FEEDS,
              allNews := pushed \<rparr>"
proof -
  let ?s = "s\<lparr> loadingHidden := False, errorHidden := True, gridHidden := True \<rparr>"
  have "\<not> cache_is_valid P E ?s" using assms(1) cache_is_valid_cong[of ?s s] by simp
  then have "try_block P E ?s = fetch_fresh P E ?s" by (rule try_block_invalid)
  then show ?thesis using assms(2) by (simp add: fetchAINews_def fetch_fresh_Inl)
qed

lemma requests_fetchAINews_fresh:
  assumes "\<not> cache_is_valid P E s"
  shows "requests (fetchAINews P E s) = requests s @ map request_url RSS_FEEDS"
proof (cases "pushed_articles P E")
  case (Inl p)
  with assms show ?thesis by (simp add: fetchAINews_thrown)
next
  case (Inr p)
  with assms show ?thesis by (simp add: fetchAINews_fresh displayNews_fields)
qed

lemma parseInt_Nil: "parseInt [] = None"
  by (simp add: parseInt_def)

subsection \<open>Loading more\<close>

lemma loadMoreNews_visible:
  "visible_articles (loadMoreNews P s) = take ((currentPage s + 1) * NEWS_PER_PAGE) (filtered_news s)"
proof -
  have "filtered_news (s\<lparr> currentPage := currentPage s + 1 \<rparr>) = filtered_news s"
    by (rule filtered_news_cong) simp_all
  then show ?thesis by (simp add: loadMoreNews_def visible_displayNews)
qed

lemma loadMoreNews_fields:
  "currentPage (loadMoreNews P s) = currentPage s + 1"
  "filtered_news (loadMoreNews P s) = filtered_news s"
proof -
  show "currentPage (loadMoreNews P s) = currentPage s + 1"
    by (simp add: loadMoreNews_def displayNews_fields)
  show "filtered_news (loadMoreNews P s) = filtered_news s"
    by (rule filtered_news_cong) (simp_all add: loadMoreNews_def displayNews_fields)
qed

lemma filtered_news_displayNews: "filtered_news (displayNews P s) = filtered_news s"
  by (rule filtered_news_cong) (simp_all add: displayNews_fields)

subsection \<open>Normalised articles and the concrete runs\<close>

lemma make_article_fields:
  "title (make_article P isoNow item) = or_else (item_title item) ''Untitled''"
  "link (make_article P isoNow item) = or_else (item_link item) ''#''"
  "pubDate (make_article P isoNow item) = or_else (item_pubDate item) isoNow"
  "image_url (make_article P isoNow item)
     = or_else (item_thumbnail item) (or_else (item_enclosure_link item) fallback_url)"
  "category (make_article P isoNow item)
     = categorizeArticle (or_else (item_title item) []) (or_else (item_description item) [])"
  by (simp_all add: make_article_def Let_def)

lemma allNews_fetchAINews_fresh:
  assumes "\<not> cache_is_valid P E s" and "pushed_articles P E = Inr pushed"
  shows "allNews (fetchAINews P E s) = final_collection P pushed"
  using assms by (simp add: fetchAINews_fresh displayNews_fields)

lemma initial_page_not_valid: "\<not> cache_is_valid P E initial_page"
  by (simp add: cache_is_valid_def initial_page_def)

lemma request_urls:
  "map request_url RSS_FEEDS =
     [''https://api.rss2json.com/v1/api.json?rss_url=https%3A%2F%2Ftechcrunch.com%2Ftag%2Fartificial-intelligence%2Ffeed%2F'',
      ''https://api.rss2json.com/v1/api.json?rss_url=https%3A%2F%2Fventurebeat.com%2Fcategory%2Fai%2Ffeed%2F'',
      ''https://api.rss2json.com/v1/api.json?rss_url=https%3A%2F%2Fwww.theverge.com%2Frss%2Fai-artificial-intelligence%2Findex.xml'']"
  by (simp add: request_url_def RSS_FEEDS_def RSS2JSON_API_def encodeURIComponent_def
      encode_char_def unreserved_def hex_digit_def)

lemma settled_bodies_first_feed:
  "settled_bodies (first_feed_env body) =
     [body, Object \<lparr> status = ''error'', items = Some [] \<rparr>,
      Object \<lparr> status = ''error'', items = Some [] \<rparr>]"
  unfolding settled_bodies_def request_urls
  by (simp add: first_feed_env_def settle_def request_url_def RSS2JSON_API_def
      encodeURIComponent_def encode_char_def unreserved_def hex_digit_def)

lemma settled_bodies_offline:
  "settled_bodies offline_env =
     [Object \<lparr> status = ''error'', items = Some [] \<rparr>,
      Object \<lparr> status = ''error'', items = Some [] \<rparr>,
      Object \<lparr> status = ''error'', items = Some [] \<rparr>]"
  unfolding settled_bodies_def request_urls
  by (simp add: offline_env_def settle_def)

lemma pushed_articles_first_feed:
  "pushed_articles P (first_feed_env (ok_body its))
     = Inr (push_items P (\<lambda>n. ''2023-11-14T22:13:20.000Z'') its [])"
  unfolding pushed_articles_def settled_bodies_first_feed
  by (simp add: ok_body_def first_feed_env_def)

lemma pushed_articles_offline: "pushed_articles P offline_env = Inr []"
  unfolding pushed_articles_def settled_bodies_offline by simp

lemma fetchAINews_cached_fields:
  assumes "cache_is_valid P E s"
  shows "requests (fetchAINews P E s) = requests s"
    and "aiNewsCache (fetchAINews P E s) = aiNewsCache s"
    and "aiNewsCacheTime (fetchAINews P E s) = aiNewsCacheTime s"
    and "errorHidden (fetchAINews P E s)"
proof -
  from fetchAINews_cached[OF assms] obtain news where
    eq: "fetchAINews P E s =
           displayNews P (s\<lparr> loadingHidden := False, errorHidden := True, gridHidden := True,
                              allNews := news \<rparr>)"
    by blast
  show "requests (fetchAINews P E s) = requests s"
    and "aiNewsCache (fetchAINews P E s) = aiNewsCache s"
    and "aiNewsCacheTime (fetchAINews P E s) = aiNewsCacheTime s"
    and "errorHidden (fetchAINews P E s)"
    unfolding eq by (simp_all add: displayNews_fields)
qed

lemma fetchAINews_fresh_fields:
  assumes "\<not> cache_is_valid P E s" and "pushed_articles P E = Inr pushed"
  shows "aiNewsCache (fetchAINews P E s) = Some (JSON_stringify P (final_collection P pushed))"
    and "aiNewsCacheTime (fetchAINews P E s) = Some (number_toString (now E))"
    and "errorHidden (fetchAINews P E s)"
    and "\<not> gridHidden (fetchAINews P E s)"
    and "loadingHidden (fetchAINews P E s)"
  unfolding fetchAINews_fresh[OF assms] by (simp_all add: displayNews_fields)

lemma fetchAINews_thrown_fields:
  assumes "\<not> cache_is_valid P E s" and "pushed_articles P E = Inl pushed"
  shows "aiNewsCache (fetchAINews P E s) = aiNewsCache s"
    and "aiNewsCacheTime (fetchAINews P E s) = aiNewsCacheTime s"
    and "\<not> errorHidden (fetchAINews P E s)"
    and "gridHidden (fetchAINews P E s)"
  unfolding fetchAINews_thrown[OF assms] by simp_all

lemma newsGrid_fetchAINews_empty:
  assumes "\<not> cache_is_valid P E s" and "pushed_articles P E = Inr []"
  shows "newsGrid (fetchAINews P E s) = []"
  unfolding fetchAINews_fresh[OF assms] by (simp add: newsGrid_displayNews_Nil final_collection_Nil)

lemma offline_unusable: "\<forall>b \<in> set (settled_bodies offline_env). unusable b"
  unfolding settled_bodies_offline by (simp add: unusable_def)

lemma cache_is_valid_iff:
  "cache_is_valid P E s \<longleftrightarrow>
     (\<exists>d t n news. aiNewsCache s = Some d \<and> d \<noteq> [] \<and> JSON_parse P d = Some news \<and>
        aiNewsCacheTime s = Some t \<and> parseInt t = Some n \<and> now E - n < CACHE_DURATION_MS)"
proof (cases "aiNewsCache s")
  case None
  then show ?thesis by (simp add: cache_is_valid_def)
next
  case d: (Some d)
  show ?thesis
  proof (cases "aiNewsCacheTime s")
    case None
    then show ?thesis by (simp add: cache_is_valid_def cache_is_fresh_def)
  next
    case t: (Some t)
    show ?thesis
    proof (cases "parseInt t")
      case None
      with d t show ?thesis by (simp add: cache_is_valid_def cache_is_fresh_def)
    next
      case (Some n)
      then have "t \<noteq> []" using parseInt_Nil by auto
      with d t Some show ?thesis
        by (cases "JSON_parse P d") (auto simp: cache_is_valid_def cache_is_fresh_def truthy_def)
    qed
  qed
qed

lemma try_block_never_SyntaxError: "try_block P E s \<noteq> Inl (SyntaxError, s')"
proof -
  have "fetch_fresh P E s \<noteq> Inl (SyntaxError, s')"
    by (cases "pushed_articles P E") (simp_all add: fetch_fresh_def Let_def)
  then show ?thesis
    by (auto simp: try_block_def use_cache_def split: option.splits)
qed

lemma sample_parseInt:
  "parseInt ''1699999000000'' = Some 1699999000000"
  "parseInt ''1600000000000'' = Some 1600000000000"
  by (simp_all add: parseInt_def is_space_def digit_value_def)

lemma cached_page_valid: "cache_is_valid sample_platform offline_env (cached_page ''1699999000000'')"
  unfolding cache_is_valid_iff
  by (simp add: cached_page_def initial_page_def sample_platform_def sample_parseInt
      offline_env_def CACHE_DURATION_MS_def)

lemma stale_page_not_valid: "\<not> cache_is_valid P offline_env stale_page"
  unfolding cache_is_valid_iff
  by (simp add: stale_page_def initial_page_def sample_parseInt offline_env_def
      CACHE_DURATION_MS_def)

lemma corrupt_page_not_valid: "\<not> cache_is_valid sample_platform E corrupt_page"
  unfolding cache_is_valid_iff
  by (simp add: corrupt_page_def initial_page_def sample_platform_def)

lemma pushed_articles_null: "pushed_articles P (first_feed_env Null) = Inl []"
  unfolding pushed_articles_def settled_bodies_first_feed by simp

lemma sample_now: "number_toString (now offline_env) = ''1700000000000''"
  by (simp add: offline_env_def number_toString_def digits_of.simps)

lemma requests_initial: "requests initial_page = []"
  by (simp add: initial_page_def)

subsection \<open>Where the pushed articles come from\<close>

lemma push_items_made:
  "a \<in> set (push_items P clk its acc) \<Longrightarrow>
   a \<in> set acc \<or> (\<exists>k item. item \<in> set its \<and> a = make_article P (clk k) item)"
proof (induction its arbitrary: acc)
  case Nil
  then show ?case by simp
next
  case (Cons i its)
  from Cons.prems have "a \<in> set (push_items P clk its (acc @ [make_article P (clk (length acc)) i]))"
    by simp
  from Cons.IH[OF this] show ?case by auto
qed

lemma collect_made:
  "collect P clk rs acc = Inr out \<Longrightarrow> a \<in> set out \<Longrightarrow>
   a \<in> set acc \<or> (\<exists>k item. item \<in> set (feed_items rs) \<and> a = make_article P (clk k) item)"
proof (induction P clk rs acc rule: collect.induct)
  case (1 P clk acc)
  then show ?case by simp
next
  case (2 P clk rs acc)
  then show ?case by simp
next
  case (3 P clk r rs acc)
  show ?case
  proof (cases "items r")
    case None
    with 3 show ?thesis by simp
  next
    case (Some its)
    show ?thesis
    proof (cases "status r = ''ok''")
      case False
      with Some 3 show ?thesis by simp
    next
      case True
      with Some "3.prems" have "collect P clk rs (push_items P clk its acc) = Inr out" by simp
      with "3.IH" "3.prems"(2) Some True
      have "a \<in> set (push_items P clk its acc) \<or>
            (\<exists>k item. item \<in> set (feed_items rs) \<and> a = make_article P (clk k) item)"
        by simp
      then show ?thesis
      proof
        assume "a \<in> set (push_items P clk its acc)"
        from push_items_made[OF this] show ?thesis using Some True by auto
      next
        assume "\<exists>k item. item \<in> set (feed_items rs) \<and> a = make_article P (clk k) item"
        then show ?thesis using Some True by auto
      qed
    qed
  qed
qed

lemma pushed_dates_parse:
  assumes "pushed_articles P E = Inr pushed"
    and "\<forall>item \<in> set (feed_items (settled_bodies E)).
           \<forall>k. date_parse P (or_else (item_pubDate item) (clock_iso E k)) \<noteq> None"
  shows "\<forall>a \<in> set pushed. date_parse P (pubDate a) \<noteq> None"
proof
  fix a assume "a \<in> set pushed"
  with assms(1) collect_made[of P "clock_iso E" "settled_bodies E" "[]" pushed a]
  obtain k item where "item \<in> set (feed_items (settled_bodies E))"
    "a = make_article P (clock_iso E k) item"
    by (auto simp: pushed_articles_def)
  with assms(2) show "date_parse P (pubDate a) \<noteq> None"
    by (simp add: make_article_fields)
qed

lemma sorted_final_collection:
  assumes "\<forall>a \<in> set pushed. date_parse P (pubDate a) \<noteq> None"
  shows "sorted_wrt (\<lambda>a b. publish_time P t b \<le> publish_time P t a) (final_collection P pushed)"
  unfolding final_collection_def
  by (intro sorted_wrt_remove_duplicates sorted_js_sort assms)

lemma final_collection_keeps_one:
  assumes "x \<in> set pushed"
  shows "\<exists>a. filter (\<lambda>b. title b = title x) (final_collection P pushed) = [a] \<and>
             a \<in> set pushed \<and> title a = title x \<and>
             (\<exists>ys zs. js_sort (compare_pubDate P) pushed = ys @ a # zs \<and>
                       title a \<notin> title ` set ys)"
proof -
  let ?sorted = "js_sort (compare_pubDate P) pushed"
  let ?final = "final_collection P pushed"
  from assms have "title x \<in> title ` set ?sorted - {}" by (simp add: set_js_sort)
  then have "title x \<in> title ` set ?final"
    unfolding final_collection_def titles_remove_duplicates .
  then obtain a where a: "a \<in> set ?final" "title a = title x" by auto
  have "distinct (map title ?final)"
    unfolding final_collection_def by (rule distinct_remove_duplicates)
  from filter_distinct_key[OF this a(1)] a(2)
  have f: "filter (\<lambda>b. title b = title x) ?final = [a]" by simp
  from a(1) have m: "a \<in> set (remove_duplicates {} ?sorted)" by (simp add: final_collection_def)
  with set_remove_duplicates_subset[of "{}" ?sorted] have "a \<in> set pushed"
    by (auto simp: set_js_sort)
  moreover from remove_duplicates_first[OF m]
  have "\<exists>ys zs. ?sorted = ys @ a # zs \<and> title a \<notin> title ` set ys" by blast
  ultimately show ?thesis using f a(2) by blast
qed

lemma final_collection_keeps_newest:
  assumes "x \<in> set pushed"
    and "\<forall>a \<in> set pushed. date_parse P (pubDate a) \<noteq> None"
    and "filter (\<lambda>b. title b = title x) (final_collection P pushed) = [a]"
    and "b \<in> set pushed" and "title b = title x"
  shows "publish_time P t b \<le> publish_time P t a"
proof -
  let ?sorted = "js_sort (compare_pubDate P) pushed"
  from final_collection_keeps_one[OF assms(1), of P] assms(3)
  obtain ys zs where s: "?sorted = ys @ a # zs" "title a \<notin> title ` set ys" "title a = title x"
    by auto
  have "sorted_wrt (\<lambda>a b. publish_time P t b \<le> publish_time P t a) ?sorted"
    by (rule sorted_js_sort[OF assms(2)])
  then have after: "\<forall>z \<in> set zs. publish_time P t z \<le> publish_time P t a"
    unfolding s(1) by (simp add: sorted_wrt_append)
  from assms(4) have "b \<in> set ?sorted" by (simp add: set_js_sort)
  then have "b \<in> set ys \<or> b = a \<or> b \<in> set zs" unfolding s(1) by auto
  moreover have "b \<notin> set ys"
  proof
    assume "b \<in> set ys"
    then have "title b \<in> title ` set ys" by (rule imageI)
    with s(2,3) assms(5) show False by simp
  qed
  ultimately show ?thesis using after by auto
qed

subsection \<open>The concrete feeds\<close>

lemma push_items_constant_clock:
  "push_items P (\<lambda>n. c) its acc = acc @ map (make_article P c) its"
  by (induction its arbitrary: acc) simp_all

lemma pushed_articles_first_feed_map:
  "pushed_articles P (first_feed_env (ok_body its))
     = Inr (map (make_article P ''2023-11-14T22:13:20.000Z'') its)"
  unfolding pushed_articles_first_feed push_items_constant_clock by simp

lemma feed_items_first_feed:
  "feed_items (settled_bodies (first_feed_env (ok_body its))) = its"
  unfolding settled_bodies_first_feed by (simp add: ok_body_def)

lemma no_null_first_feed: "Null \<notin> set (settled_bodies (first_feed_env (ok_body its)))"
  unfolding settled_bodies_first_feed by (simp add: ok_body_def)

lemma sample_dates:
  "date_parse sample_platform ''2020-01-01T00:00:00.000Z'' = Some 1577836800000"
  "date_parse sample_platform ''2023-01-01T00:00:00.000Z'' = Some 1672531200000"
  "date_parse sample_platform ''2023-11-14T22:13:20.000Z'' = Some 1700000000000"
  "date_parse sample_platform ''not a date'' = None"
  by (simp_all add: sample_platform_def)

lemma dated_item_fields:
  "title (make_article P c (dated_item t d)) = or_else (Some t) ''Untitled''"
  "pubDate (make_article P c (dated_item t d)) = or_else d c"
  by (simp_all add: make_article_fields dated_item_def)

lemma final_dated_feed:
  "final_collection sample_platform (map (make_article sample_platform ''2023-11-14T22:13:20.000Z'') dated_feed)
     = [make_article sample_platform ''2023-11-14T22:13:20.000Z'' (dated_item ''Other title'' None),
        make_article sample_platform ''2023-11-14T22:13:20.000Z''
          (dated_item ''Same title'' (Some ''2023-01-01T00:00:00.000Z''))]"
  by (simp add: final_collection_def js_sort_def dated_feed_def comes_after_def compare_pubDate_def
      dated_item_fields or_else_def sample_dates)

lemma final_undated_feed:
  "final_collection sample_platform (map (make_article sample_platform ''2023-11-14T22:13:20.000Z'') undated_feed)
     = [make_article sample_platform ''2023-11-14T22:13:20.000Z''
          (dated_item ''Same title'' (Some ''2020-01-01T00:00:00.000Z'')),
        make_article sample_platform ''2023-11-14T22:13:20.000Z''
          (dated_item ''Other title'' (Some ''not a date''))]"
  by (simp add: final_collection_def js_sort_def undated_feed_def comes_after_def compare_pubDate_def
      dated_item_fields or_else_def sample_dates)

lemma final_two_item_feed:
  "final_collection sample_platform (map (make_article sample_platform ''2023-11-14T22:13:20.000Z'') two_item_feed)
     = map (make_article sample_platform ''2023-11-14T22:13:20.000Z'') two_item_feed"
  by (simp add: final_collection_def js_sort_def two_item_feed_def comes_after_def compare_pubDate_def
      dated_item_fields or_else_def sample_dates)

subsection \<open>Runs that collect nothing, and the error state\<close>

lemma collect_no_articles:
  "\<forall>b \<in> set rs. no_articles b \<Longrightarrow> collect P clk rs acc = Inr acc"
  by (induction P clk rs acc rule: collect.induct)
     (auto simp: no_articles_def split: option.splits)

lemma pushed_articles_no_articles:
  "\<forall>b \<in> set (settled_bodies E). no_articles b \<Longrightarrow> pushed_articles P E = Inr []"
  by (simp add: pushed_articles_def collect_no_articles)

lemma unusable_no_articles: "unusable b \<Longrightarrow> no_articles b"
  by (cases b) (auto simp: unusable_def no_articles_def)

text \<open>The error state is shown at the end of a run exactly when no valid entry is
  stored and some body is \<open>null\<close>.\<close>

lemma error_state_only_after_exception:
  "\<not> errorHidden (fetchAINews P E s) \<longleftrightarrow>
     \<not> cache_is_valid P E s \<and> Null \<in> set (settled_bodies E)"
proof (cases "cache_is_valid P E s")
  case True
  then show ?thesis using fetchAINews_cached_fields(4)[OF True] by simp
next
  case False
  show ?thesis
  proof (cases "pushed_articles P E")
    case (Inl p)
    with pushed_articles_cases[of E P] have "Null \<in> set (settled_bodies E)" by auto
    with False fetchAINews_thrown_fields(3)[OF False Inl] show ?thesis by simp
  next
    case (Inr p)
    with pushed_articles_cases[of E P] have "Null \<notin> set (settled_bodies E)" by auto
    with False fetchAINews_fresh_fields(3)[OF False Inr] show ?thesis by simp
  qed
qed

lemma offline_no_articles: "\<forall>b \<in> set (settled_bodies offline_env). no_articles b"
  unfolding settled_bodies_offline by (simp add: no_articles_def)

lemma empty_feed_no_articles:
  "\<forall>b \<in> set (settled_bodies (first_feed_env (ok_body []))). no_articles b"
  unfolding settled_bodies_first_feed by (simp add: no_articles_def ok_body_def)

subsection \<open>Which duplicate is kept\<close>

lemma first_of_filter:
  assumes "xs = ys @ a # zs" and "\<forall>b \<in> set ys. \<not> Q b" and "Q a"
  shows "filter Q xs = a # filter Q zs"
  using assms by simp

lemma final_collection_keeps_first_newest:
  assumes "x \<in> set pushed"
    and "\<forall>a \<in> set pushed. date_parse P (pubDate a) \<noteq> None"
    and "filter (\<lambda>b. title b = title x) (final_collection P pushed) = [a]"
  shows "\<exists>us vs. pushed = us @ a # vs \<and>
           (\<forall>b \<in> set us. title b = title x \<longrightarrow> publish_time P t b < publish_time P t a)"
proof -
  let ?f = "\<lambda>b. - publish_time P t b"
  let ?sorted = "js_sort (compare_pubDate P) pushed"
  let ?Q = "\<lambda>b. ?f b = ?f a \<and> title b = title x"
  from final_collection_keeps_one[OF assms(1), of P] assms(3)
  obtain ys zs where s: "?sorted = ys @ a # zs" "title a \<notin> title ` set ys" "title a = title x"
    by auto
  have st: "?sorted = sort_key ?f pushed" by (rule js_sort_sort_key[OF assms(2)])
  have "title b \<noteq> title x" if "b \<in> set ys" for b
  proof
    assume "title b = title x"
    moreover from that have "title b \<in> title ` set ys" by (rule imageI)
    ultimately show False using s(2,3) by simp
  qed
  then have "\<forall>b \<in> set ys. \<not> ?Q b" by simp
  with s(1,3) have "filter ?Q ?sorted = a # filter ?Q zs" by simp
  moreover have "filter ?Q ?sorted
      = filter (\<lambda>b. title b = title x) (filter (\<lambda>b. ?f b = ?f a) (sort_key ?f pushed))"
    unfolding st by (simp add: conj_commute)
  moreover have "\<dots> = filter (\<lambda>b. title b = title x) (filter (\<lambda>b. ?f b = ?f a) pushed)"
    by (simp only: sort_key_stable)
  moreover have "\<dots> = filter ?Q pushed" by (simp add: conj_commute)
  ultimately have "filter ?Q pushed = a # filter ?Q zs" by simp
  then obtain us vs where p: "pushed = us @ a # vs" "\<forall>u \<in> set us. \<not> ?Q u"
    unfolding filter_eq_Cons_iff by blast
  have "publish_time P t b < publish_time P t a" if "b \<in> set us" "title b = title x" for b
  proof -
    from that(1) p(1) have "b \<in> set pushed" by simp
    from final_collection_keeps_newest[OF assms(1,2,3) this that(2), of t]
    have "publish_time P t b \<le> publish_time P t a" .
    moreover from p(2) that have "publish_time P t b \<noteq> publish_time P t a" by auto
    ultimately show ?thesis by simp
  qed
  with p(1) show ?thesis by blast
qed

lemma final_undated_duplicate_feed:
  "final_collection sample_platform
     (map (make_article sample_platform ''2023-11-14T22:13:20.000Z'') undated_duplicate_feed)
     = [make_article sample_platform ''2023-11-14T22:13:20.000Z''
          (dated_item ''Same title'' (Some ''2020-01-01T00:00:00.000Z''))]"
  by (simp add: final_collection_def js_sort_def undated_duplicate_feed_def comes_after_def
      compare_pubDate_def dated_item_fields or_else_def sample_dates)

section \<open>The properties\<close>

subsection \<open>Categories\<close>

text \<open>
  C5 (as amended). The category is decided by a scan, blind to the case of the text's
  letters, of the title, one space and the description put together, against the four
  keyword sets in the order LLM, vision, ethics, generic ML; the first set with a keyword
  that occurs gives the category, and \<open>ml\<close> is the default. In particular a text in
  which an LLM keyword and a vision keyword both occur is categorised \<open>llm\<close>.
\<close>

theorem categorizeArticle_first_match:
  "categorizeArticle t d = first_match (t @ '' '' @ d) \<and>
   (k1 \<in> set llm_keywords \<and> k2 \<in> set vision_keywords \<and>
    occurs_ignoring_case k1 (t @ '' '' @ d) \<and> occurs_ignoring_case k2 (t @ '' '' @ d)
    \<longrightarrow> categorizeArticle t d = ''llm'')"
proof -
  have eq: "categorizeArticle t d = first_match (t @ '' '' @ d)"
    by (simp add: categorizeArticle_def first_match_def keyword_sets_def llm_keywords_def
        vision_keywords_def ethics_keywords_def ml_keywords_def includes_lower[symmetric] Let_def)
  have "first_match (t @ '' '' @ d) = ''llm''"
    if "k1 \<in> set llm_keywords" "occurs_ignoring_case k1 (t @ '' '' @ d)"
  proof -
    from that have "list_ex (\<lambda>kw. occurs_ignoring_case kw (t @ '' '' @ d)) llm_keywords"
      by (auto simp: list_ex_iff)
    then show ?thesis by (simp add: first_match_def keyword_sets_def)
  qed
  with eq show ?thesis by simp
qed

text \<open>The theorem at a title that has an LLM keyword in capitals and a vision
  keyword.\<close>

theorem categorizeArticle_first_match_witness:
  "categorizeArticle ''GPT with computer vision'' ''Visual models''
     = first_match (''GPT with computer vision'' @ '' '' @ ''Visual models'') \<and>
   ''gpt'' \<in> set llm_keywords \<and> ''computer vision'' \<in> set vision_keywords \<and>
   occurs_ignoring_case ''gpt'' (''GPT with computer vision'' @ '' '' @ ''Visual models'') \<and>
   occurs_ignoring_case ''computer vision'' (''GPT with computer vision'' @ '' '' @ ''Visual models'') \<and>
   categorizeArticle ''GPT with computer vision'' ''Visual models'' = ''llm''"
proof -
  have o1: "occurs_ignoring_case ''gpt'' (''GPT with computer vision'' @ '' '' @ ''Visual models'')"
    by (simp add: includes_lower[symmetric] toLowerCase_def lower_char_def)
  have o2: "occurs_ignoring_case ''computer vision'' (''GPT with computer vision'' @ '' '' @ ''Visual models'')"
    by (simp add: includes_lower[symmetric] toLowerCase_def lower_char_def)
  have k: "''gpt'' \<in> set llm_keywords" "''computer vision'' \<in> set vision_keywords"
    by (simp_all add: llm_keywords_def vision_keywords_def)
  from categorizeArticle_first_match[of "''GPT with computer vision''" "''Visual models''"
      "''gpt''" "''computer vision''"] o1 o2 k
  show ?thesis by blast
qed

text \<open>
  C5 as stated reads the title and the description put together with nothing between
  them. The title \<open>chat\<close> and the description \<open>bot\<close> then hold the LLM keyword
  \<open>chatbot\<close>; the source joins them with a space and finds no keyword.
\<close>

theorem concatenation_without_space_counterexample:
  "first_match (''chat'' @ ''bot'') = ''llm'' \<and> categorizeArticle ''chat'' ''bot'' = ''ml''"
proof -
  have "occurs_ignoring_case ''chatbot'' (''chat'' @ ''bot'')"
    by (simp add: includes_lower[symmetric] toLowerCase_def lower_char_def)
  then have "list_ex (\<lambda>kw. occurs_ignoring_case kw (''chat'' @ ''bot'')) llm_keywords"
    by (simp add: llm_keywords_def)
  then have "first_match (''chat'' @ ''bot'') = ''llm''"
    by (simp add: first_match_def keyword_sets_def)
  moreover have "categorizeArticle ''chat'' ''bot'' = ''ml''"
    by (simp add: categorizeArticle_def toLowerCase_def lower_char_def)
  ultimately show ?thesis by simp
qed

subsection \<open>Pagination\<close>

text \<open>
  C8. The visible articles are the first \<open>currentPage * NEWS_PER_PAGE\<close> articles of the
  filtered collection, and the page size is 9. From the first page, one \<open>loadMoreNews\<close>
  shows \<open>min (2 * NEWS_PER_PAGE)\<close> of the filtered count; with twenty-five filtered articles
  the visible counts are 9, then 18, 25 and 25 after one, two and three calls of
  \<open>loadMoreNews\<close>.
\<close>

theorem pagination:
  "visible_articles (displayNews P s) = take (currentPage s * NEWS_PER_PAGE) (filtered_news s) \<and>
   NEWS_PER_PAGE = 9 \<and>
   (currentPage s = 1 \<longrightarrow>
      length (visible_articles (loadMoreNews P (displayNews P s)))
        = min (2 * NEWS_PER_PAGE) (length (filtered_news s))) \<and>
   (currentPage s = 1 \<and> length (filtered_news s) = 25 \<longrightarrow>
      length (visible_articles (displayNews P s)) = 9 \<and>
      length (visible_articles (loadMoreNews P (displayNews P s))) = 18 \<and>
      length (visible_articles (loadMoreNews P (loadMoreNews P (displayNews P s)))) = 25 \<and>
      length (visible_articles
                (loadMoreNews P (loadMoreNews P (loadMoreNews P (displayNews P s))))) = 25)"
  by (auto simp: visible_displayNews loadMoreNews_visible loadMoreNews_fields
      filtered_news_displayNews displayNews_fields NEWS_PER_PAGE_def min.commute)

text \<open>The theorem on a page of twenty-five articles.\<close>

theorem pagination_witness:
  "currentPage twenty_five_page = 1 \<and> length (filtered_news twenty_five_page) = 25 \<and>
   length (visible_articles (displayNews sample_platform twenty_five_page)) = 9 \<and>
   length (visible_articles (loadMoreNews sample_platform (displayNews sample_platform twenty_five_page))) = 18 \<and>
   length (visible_articles (loadMoreNews sample_platform
      (loadMoreNews sample_platform (displayNews sample_platform twenty_five_page)))) = 25 \<and>
   length (visible_articles (loadMoreNews sample_platform (loadMoreNews sample_platform
      (loadMoreNews sample_platform (displayNews sample_platform twenty_five_page))))) = 25"
proof -
  have a: "currentPage twenty_five_page = 1"
    by (simp add: twenty_five_page_def initial_page_def)
  have b: "length (filtered_news twenty_five_page) = 25"
    by (simp add: twenty_five_page_def initial_page_def filtered_news_def toLowerCase_def)
  from pagination[of sample_platform twenty_five_page] a b show ?thesis by simp
qed

subsection \<open>URLs\<close>

text \<open>
  C10. \<open>sanitizeURL\<close> returns its argument when the argument parses as a URL with the
  protocol http or https, and the one fallback URL otherwise; on a platform that reads
  the fallback URL itself as https, it returns its argument unchanged exactly when the
  argument parses so. The same URL is the source of a card's and the modal's image whose
  URL is refused, the target of the modal's link when the article's link is refused, and
  the image of an article whose item has neither thumbnail nor enclosure: a refused link
  is replaced by the placeholder image's URL.
\<close>

theorem sanitizeURL_single_fallback:
  "(parses_as_http P url \<longrightarrow> sanitizeURL P url = url) \<and>
   (\<not> parses_as_http P url \<longrightarrow> sanitizeURL P url = fallback_url) \<and>
   (parses_as_http P fallback_url \<longrightarrow> (sanitizeURL P url = url \<longleftrightarrow> parses_as_http P url)) \<and>
   card_image (render_card P a) = sanitizeURL P (image_url a) \<and>
   modalImage (openArticleModal P a s) = sanitizeURL P (image_url a) \<and>
   modalLink (openArticleModal P a s) = sanitizeURL P (link a) \<and>
   (\<not> parses_as_http P (link a) \<longrightarrow> modalLink (openArticleModal P a s) = fallback_url) \<and>
   (\<not> parses_as_http P (image_url a) \<longrightarrow>
      modalImage (openArticleModal P a s) = fallback_url \<and>
      card_image (render_card P a) = fallback_url) \<and>
   (\<not> truthy (item_thumbnail item) \<and> \<not> truthy (item_enclosure_link item) \<longrightarrow>
      image_url (make_article P isoNow item) = fallback_url)"
proof -
  have yes: "sanitizeURL P u = u" if "parses_as_http P u" for u
    using that by (auto simp: sanitizeURL_def parses_as_http_def split: option.splits)
  have no: "sanitizeURL P u = fallback_url" if "\<not> parses_as_http P u" for u
    using that by (auto simp: sanitizeURL_def parses_as_http_def split: option.splits)
  have iff: "sanitizeURL P url = url \<longleftrightarrow> parses_as_http P url" if "parses_as_http P fallback_url"
    using that yes[of url] no[of url] by (cases "parses_as_http P url") auto
  have img: "image_url (make_article P isoNow item) = fallback_url"
    if "\<not> truthy (item_thumbnail item)" "\<not> truthy (item_enclosure_link item)"
    using that by (auto simp: make_article_def truthy_def or_else_def Let_def split: option.splits)
  show ?thesis
    using yes no iff img by (simp add: render_card_def openArticleModal_def)
qed

text \<open>The theorem at an https URL, at \<open>javascript:alert(1)\<close> and at the article
  made from the specification's example item.\<close>

theorem sanitizeURL_single_fallback_witness:
  "parses_as_http sample_platform ''https://example.com/a'' \<and>
   sanitizeURL sample_platform ''https://example.com/a'' = ''https://example.com/a'' \<and>
   parses_as_http sample_platform fallback_url \<and>
   \<not> parses_as_http sample_platform ''javascript:alert(1)'' \<and>
   sanitizeURL sample_platform ''javascript:alert(1)'' = fallback_url \<and>
   modalLink (openArticleModal sample_platform
                (make_article sample_platform ''2023-11-14T22:13:20.000Z'' example_item)
                initial_page) = fallback_url \<and>
   image_url (make_article sample_platform ''2023-11-14T22:13:20.000Z'' example_item) = fallback_url"
proof -
  let ?a = "make_article sample_platform ''2023-11-14T22:13:20.000Z'' example_item"
  have l: "link ?a = ''javascript:alert(1)''"
    by (simp add: make_article_def example_item_def or_else_def Let_def)
  have p1: "parses_as_http sample_platform ''https://example.com/a''"
    by (simp add: parses_as_http_def sample_platform_def)
  have p2: "parses_as_http sample_platform fallback_url"
    by (simp add: parses_as_http_def sample_platform_def fallback_url_def)
  have p3: "\<not> parses_as_http sample_platform ''javascript:alert(1)''"
    by (simp add: parses_as_http_def sample_platform_def fallback_url_def)
  have t: "\<not> truthy (item_thumbnail example_item)" "\<not> truthy (item_enclosure_link example_item)"
    by (simp_all add: truthy_def example_item_def)
  from sanitizeURL_single_fallback[of sample_platform "''https://example.com/a''" ?a initial_page
      example_item "''2023-11-14T22:13:20.000Z''"]
    sanitizeURL_single_fallback[of sample_platform "''javascript:alert(1)''" ?a initial_page
      example_item "''2023-11-14T22:13:20.000Z''"]
    l p1 p2 p3 t
  show ?thesis by simp
qed

text \<open>
  C2 (as amended). The link of the article made from a feed item is the item's link when
  that is present and not empty, and \<open>#\<close> otherwise; nothing is checked when the
  article is made. The check is made when the article is opened: the modal's link is the
  article's link when that parses as an http or https URL, and the fallback URL
  otherwise.
\<close>

theorem make_article_link:
  "link (make_article P isoNow item) = or_else (item_link item) ''#'' \<and>
   (truthy (item_link item) \<longrightarrow> item_link item = Some (link (make_article P isoNow item))) \<and>
   (\<not> truthy (item_link item) \<longrightarrow> link (make_article P isoNow item) = ''#'') \<and>
   modalLink (openArticleModal P (make_article P isoNow item) s)
     = (if parses_as_http P (link (make_article P isoNow item))
        then link (make_article P isoNow item) else fallback_url)"
proof -
  let ?a = "make_article P isoNow item"
  have l: "link ?a = or_else (item_link item) ''#''"
    by (simp add: make_article_fields)
  have t: "truthy (item_link item) \<longrightarrow> item_link item = Some (or_else (item_link item) ''#'')"
    by (cases "item_link item") (simp_all add: truthy_def or_else_def)
  have n: "\<not> truthy (item_link item) \<longrightarrow> or_else (item_link item) ''#'' = ''#''"
    by (cases "item_link item") (simp_all add: truthy_def or_else_def)
  have m: "modalLink (openArticleModal P ?a s)
      = (if parses_as_http P (link ?a) then link ?a else fallback_url)"
    by (cases "url_parse P (link ?a)")
       (simp_all add: openArticleModal_def sanitizeURL_def parses_as_http_def)
  from t n have "truthy (item_link item) \<longrightarrow> item_link item = Some (link ?a)"
    and "\<not> truthy (item_link item) \<longrightarrow> link ?a = ''#''"
    unfolding l by blast+
  with l m show ?thesis by blast
qed

text \<open>The theorem at the specification's example item and at an item with no link.\<close>

theorem make_article_link_witness:
  "truthy (item_link example_item) \<and>
   link (make_article sample_platform ''2023-11-14T22:13:20.000Z'' example_item)
     = ''javascript:alert(1)'' \<and>
   \<not> truthy (item_link (dated_item ''No link'' None)) \<and>
   link (make_article sample_platform ''2023-11-14T22:13:20.000Z'' (dated_item ''No link'' None)) = ''#'' \<and>
   modalLink (openArticleModal sample_platform
       (make_article sample_platform ''2023-11-14T22:13:20.000Z'' example_item) initial_page)
     = fallback_url"
proof -
  let ?a = "make_article sample_platform ''2023-11-14T22:13:20.000Z'' example_item"
  let ?b = "make_article sample_platform ''2023-11-14T22:13:20.000Z'' (dated_item ''No link'' None)"
  have t: "truthy (item_link example_item)"
    by (simp add: truthy_def example_item_def)
  have e: "item_link example_item = Some ''javascript:alert(1)''"
    by (simp add: example_item_def)
  have n: "\<not> truthy (item_link (dated_item ''No link'' None))"
    by (simp add: truthy_def dated_item_def)
  have p: "\<not> parses_as_http sample_platform ''javascript:alert(1)''"
    by (simp add: parses_as_http_def sample_platform_def fallback_url_def)
  note A = make_article_link[of sample_platform "''2023-11-14T22:13:20.000Z''" example_item initial_page]
  note B = make_article_link[of sample_platform "''2023-11-14T22:13:20.000Z''"
      "dated_item ''No link'' None" initial_page]
  from A t have "item_link example_item = Some (link ?a)" by blast
  with e have la: "link ?a = ''javascript:alert(1)''" by (metis option.inject)
  from B n have lb: "link ?b = ''#''" by blast
  from A have "modalLink (openArticleModal sample_platform ?a initial_page)
      = (if parses_as_http sample_platform (link ?a) then link ?a else fallback_url)" by blast
  with la p have m: "modalLink (openArticleModal sample_platform ?a initial_page) = fallback_url"
    by simp
  from t la n lb m show ?thesis by blast
qed

text \<open>
  C2 as stated has the link replaced when the article is made. The run whose first feed
  returns the example item ends with an article whose link is still
  \<open>javascript:alert(1)\<close>.
\<close>

theorem link_not_sanitized_counterexample:
  "map link (allNews (fetchAINews sample_platform (first_feed_env (ok_body [example_item])) initial_page))
     = [''javascript:alert(1)''] \<and>
   \<not> parses_as_http sample_platform ''javascript:alert(1)'' \<and>
   ''javascript:alert(1)'' \<noteq> fallback_url"
proof -
  have "allNews (fetchAINews sample_platform (first_feed_env (ok_body [example_item])) initial_page)
          = [make_article sample_platform ''2023-11-14T22:13:20.000Z'' example_item]"
    by (simp add: allNews_fetchAINews_fresh[OF initial_page_not_valid pushed_articles_first_feed]
        final_collection_def js_sort_def)
  moreover have "link (make_article sample_platform ''2023-11-14T22:13:20.000Z'' example_item)
      = ''javascript:alert(1)''"
    by (simp add: make_article_fields example_item_def or_else_def)
  moreover have "\<not> parses_as_http sample_platform ''javascript:alert(1)''"
    by (simp add: parses_as_http_def sample_platform_def fallback_url_def)
  ultimately show ?thesis by (simp add: fallback_url_def)
qed

subsection \<open>The refresh\<close>

text \<open>
  C1 (as amended). If no valid cache entry exists and every request settles to a body
  from which no article is pushed (an object whose status is not \<open>ok\<close>, that has no
  items or whose list of items is empty; a rejected request settles to such a body),
  \<open>fetchAINews\<close> does not fail: it ends with the error state hidden, the loading state
  hidden, the grid shown and no article in it.
\<close>

theorem total_failure_shows_empty_grid:
  assumes "\<not> cache_is_valid P E s"
    and "\<forall>b \<in> set (settled_bodies E). no_articles b"
  shows "errorHidden (fetchAINews P E s) \<and> \<not> gridHidden (fetchAINews P E s) \<and>
         loadingHidden (fetchAINews P E s) \<and> allNews (fetchAINews P E s) = [] \<and>
         newsGrid (fetchAINews P E s) = []"
proof -
  from assms(2) have p: "pushed_articles P E = Inr []" by (rule pushed_articles_no_articles)
  have "allNews (fetchAINews P E s) = []"
    using allNews_fetchAINews_fresh[OF assms(1) p] by (simp add: final_collection_Nil)
  moreover note fetchAINews_fresh_fields(3,4,5)[OF assms(1) p]
    newsGrid_fetchAINews_empty[OF assms(1) p]
  ultimately show ?thesis by blast
qed

text \<open>The theorem on the freshly loaded page, with every request failing and with the
  first feed answering \<open>ok\<close> with an empty list.\<close>

theorem total_failure_shows_empty_grid_witness:
  "\<not> cache_is_valid sample_platform offline_env initial_page \<and>
   list_all no_articles (settled_bodies offline_env) \<and>
   errorHidden (fetchAINews sample_platform offline_env initial_page) \<and>
   \<not> gridHidden (fetchAINews sample_platform offline_env initial_page) \<and>
   newsGrid (fetchAINews sample_platform offline_env initial_page) = [] \<and>
   \<not> cache_is_valid sample_platform (first_feed_env (ok_body [])) initial_page \<and>
   list_all no_articles (settled_bodies (first_feed_env (ok_body []))) \<and>
   errorHidden (fetchAINews sample_platform (first_feed_env (ok_body [])) initial_page) \<and>
   \<not> gridHidden (fetchAINews sample_platform (first_feed_env (ok_body [])) initial_page) \<and>
   newsGrid (fetchAINews sample_platform (first_feed_env (ok_body [])) initial_page) = []"
  using total_failure_shows_empty_grid[of sample_platform offline_env initial_page]
    total_failure_shows_empty_grid[of sample_platform "first_feed_env (ok_body [])" initial_page]
    initial_page_not_valid[of sample_platform offline_env]
    initial_page_not_valid[of sample_platform "first_feed_env (ok_body [])"]
    offline_no_articles empty_feed_no_articles
  unfolding list_all_iff by blast

text \<open>
  C1 as stated has the run fail and show the error state. With nothing stored and all
  three requests rejected the run ends with the error state hidden and an empty grid
  shown.
\<close>

theorem total_failure_counterexample:
  "aiNewsCache initial_page = None \<and>
   settled_bodies offline_env = replicate 3 (Object \<lparr> status = ''error'', items = Some [] \<rparr>) \<and>
   errorHidden (fetchAINews sample_platform offline_env initial_page) \<and>
   \<not> gridHidden (fetchAINews sample_platform offline_env initial_page) \<and>
   newsGrid (fetchAINews sample_platform offline_env initial_page) = []"
proof -
  have c: "aiNewsCache initial_page = None" by (simp add: initial_page_def)
  have r: "settled_bodies offline_env = replicate 3 (Object \<lparr> status = ''error'', items = Some [] \<rparr>)"
    unfolding settled_bodies_offline by (simp add: numeral_3_eq_3)
  note n = initial_page_not_valid[of sample_platform offline_env]
  note p = pushed_articles_offline[of sample_platform]
  from c r fetchAINews_fresh_fields(3,4)[OF n p] newsGrid_fetchAINews_empty[OF n p]
  show ?thesis by blast
qed

text \<open>
  C3 (as amended). The stored entry is left as it is when the run reuses a valid entry,
  and when an exception is thrown while the results are collected (a body that is
  \<open>null\<close>), in which case the error state is shown. In every other run the two keys
  are overwritten with the final collection and the time of the run; that includes the
  run in which no feed returns usable data, which stores the empty collection.
\<close>

theorem cache_written_after_aggregation:
  "(cache_is_valid P E s \<longrightarrow>
      aiNewsCache (fetchAINews P E s) = aiNewsCache s \<and>
      aiNewsCacheTime (fetchAINews P E s) = aiNewsCacheTime s) \<and>
   (\<not> cache_is_valid P E s \<and> Null \<in> set (settled_bodies E) \<longrightarrow>
      aiNewsCache (fetchAINews P E s) = aiNewsCache s \<and>
      aiNewsCacheTime (fetchAINews P E s) = aiNewsCacheTime s \<and>
      \<not> errorHidden (fetchAINews P E s)) \<and>
   (\<not> cache_is_valid P E s \<and> Null \<notin> set (settled_bodies E) \<longrightarrow>
      aiNewsCache (fetchAINews P E s) = Some (JSON_stringify P (allNews (fetchAINews P E s))) \<and>
      aiNewsCacheTime (fetchAINews P E s) = Some (number_toString (now E)) \<and>
      errorHidden (fetchAINews P E s)) \<and>
   (\<not> cache_is_valid P E s \<and> (\<forall>b \<in> set (settled_bodies E). unusable b) \<longrightarrow>
      aiNewsCache (fetchAINews P E s) = Some (JSON_stringify P []) \<and>
      aiNewsCacheTime (fetchAINews P E s) = Some (number_toString (now E)))"
proof -
  have a: "aiNewsCache (fetchAINews P E s) = aiNewsCache s \<and>
      aiNewsCacheTime (fetchAINews P E s) = aiNewsCacheTime s" if "cache_is_valid P E s"
    using fetchAINews_cached_fields(2,3)[OF that] by blast
  have b: "aiNewsCache (fetchAINews P E s) = aiNewsCache s \<and>
      aiNewsCacheTime (fetchAINews P E s) = aiNewsCacheTime s \<and>
      \<not> errorHidden (fetchAINews P E s)"
    if "\<not> cache_is_valid P E s" "Null \<in> set (settled_bodies E)"
  proof -
    from that(2) pushed_articles_cases[of E P] obtain p where "pushed_articles P E = Inl p"
      by blast
    from fetchAINews_thrown_fields(1,2,3)[OF that(1) this] show ?thesis by blast
  qed
  have c: "aiNewsCache (fetchAINews P E s) = Some (JSON_stringify P (allNews (fetchAINews P E s))) \<and>
      aiNewsCacheTime (fetchAINews P E s) = Some (number_toString (now E)) \<and>
      errorHidden (fetchAINews P E s)"
    if "\<not> cache_is_valid P E s" "Null \<notin> set (settled_bodies E)"
  proof -
    from that(2) pushed_articles_cases[of E P] obtain p where p: "pushed_articles P E = Inr p"
      by blast
    from fetchAINews_fresh_fields(1,2,3)[OF that(1) p] allNews_fetchAINews_fresh[OF that(1) p]
    show ?thesis by simp
  qed
  have d: "aiNewsCache (fetchAINews P E s) = Some (JSON_stringify P []) \<and>
      aiNewsCacheTime (fetchAINews P E s) = Some (number_toString (now E))"
    if "\<not> cache_is_valid P E s" "\<forall>b \<in> set (settled_bodies E). unusable b"
  proof -
    from that(2) have p: "pushed_articles P E = Inr []" by (rule pushed_articles_unusable)
    from fetchAINews_fresh_fields(1,2)[OF that(1) p] show ?thesis
      by (simp add: final_collection_Nil)
  qed
  from a b c d show ?thesis by blast
qed

text \<open>The theorem on a page with a fresh entry, on a page with an old entry when every
  request fails, and on the freshly loaded page when the first feed answers \<open>null\<close>.\<close>

theorem cache_written_after_aggregation_witness:
  "cache_is_valid sample_platform offline_env (cached_page ''1699999000000'') \<and>
   aiNewsCacheTime (fetchAINews sample_platform offline_env (cached_page ''1699999000000''))
     = Some ''1699999000000'' \<and>
   \<not> cache_is_valid sample_platform offline_env stale_page \<and>
   list_all unusable (settled_bodies offline_env) \<and>
   aiNewsCache (fetchAINews sample_platform offline_env stale_page) = Some ''[]'' \<and>
   aiNewsCacheTime (fetchAINews sample_platform offline_env stale_page) = Some ''1700000000000'' \<and>
   \<not> cache_is_valid sample_platform (first_feed_env Null) initial_page \<and>
   Null \<in> set (settled_bodies (first_feed_env Null)) \<and>
   aiNewsCache (fetchAINews sample_platform (first_feed_env Null) initial_page) = None \<and>
   \<not> errorHidden (fetchAINews sample_platform (first_feed_env Null) initial_page)"
proof -
  note v = cached_page_valid
  note A = cache_written_after_aggregation[of sample_platform offline_env "cached_page ''1699999000000''"]
  have t: "aiNewsCacheTime (cached_page ''1699999000000'') = Some ''1699999000000''"
    by (simp add: cached_page_def)
  from A v t have 1: "aiNewsCacheTime (fetchAINews sample_platform offline_env (cached_page ''1699999000000''))
     = Some ''1699999000000''" by metis
  note n = stale_page_not_valid[of sample_platform]
  note u = offline_unusable
  note B = cache_written_after_aggregation[of sample_platform offline_env stale_page]
  have e: "JSON_stringify sample_platform [] = ''[]''" by (simp add: sample_platform_def)
  from B n u have "aiNewsCache (fetchAINews sample_platform offline_env stale_page)
       = Some (JSON_stringify sample_platform []) \<and>
     aiNewsCacheTime (fetchAINews sample_platform offline_env stale_page)
       = Some (number_toString (now offline_env))" by blast
  then have 2: "aiNewsCache (fetchAINews sample_platform offline_env stale_page) = Some ''[]''"
    and 3: "aiNewsCacheTime (fetchAINews sample_platform offline_env stale_page) = Some ''1700000000000''"
    unfolding e sample_now by blast+
  note i = initial_page_not_valid[of sample_platform "first_feed_env Null"]
  have m: "Null \<in> set (settled_bodies (first_feed_env Null))"
    unfolding settled_bodies_first_feed by simp
  have c: "aiNewsCache initial_page = None" by (simp add: initial_page_def)
  note C = cache_written_after_aggregation[of sample_platform "first_feed_env Null" initial_page]
  from C i m c have 4: "aiNewsCache (fetchAINews sample_platform (first_feed_env Null) initial_page) = None"
    and 5: "\<not> errorHidden (fetchAINews sample_platform (first_feed_env Null) initial_page)"
    by metis+
  from v 1 n u 2 3 i m 4 5 show ?thesis unfolding list_all_iff by blast
qed

text \<open>
  C3 as stated leaves the stored entry unchanged when no feed returns usable data. A page
  that holds a one-article collection stored long ago, refreshed while every request
  fails, ends with the empty collection and the time of the failed run stored.
\<close>

theorem failed_run_overwrites_cache_counterexample:
  \<open>aiNewsCache stale_page = Some ''[{"title":"Old news"}]'' \<and>
   aiNewsCacheTime stale_page = Some ''1600000000000'' \<and>
   settled_bodies offline_env = replicate 3 (Object \<lparr> status = ''error'', items = Some [] \<rparr>) \<and>
   aiNewsCache (fetchAINews sample_platform offline_env stale_page) = Some ''[]'' \<and>
   aiNewsCacheTime (fetchAINews sample_platform offline_env stale_page) = Some ''1700000000000''\<close>
proof -
  have a: \<open>aiNewsCache stale_page = Some ''[{"title":"Old news"}]''\<close>
    and b: "aiNewsCacheTime stale_page = Some ''1600000000000''"
    by (simp_all add: stale_page_def)
  have r: "settled_bodies offline_env = replicate 3 (Object \<lparr> status = ''error'', items = Some [] \<rparr>)"
    unfolding settled_bodies_offline by (simp add: numeral_3_eq_3)
  note n = stale_page_not_valid[of sample_platform]
  note p = pushed_articles_offline[of sample_platform]
  have e: "JSON_stringify sample_platform (final_collection sample_platform []) = ''[]''"
    by (simp add: sample_platform_def final_collection_Nil)
  from fetchAINews_fresh_fields(1,2)[OF n p]
  have "aiNewsCache (fetchAINews sample_platform offline_env stale_page) = Some ''[]''"
    and "aiNewsCacheTime (fetchAINews sample_platform offline_env stale_page) = Some ''1700000000000''"
    unfolding e sample_now by blast+
  with a b r show ?thesis by blast
qed

text \<open>
  C4. When the stored collection is present and parses and the stored time is less than
  the cache duration (3600000 ms, one hour) before now, \<open>fetchAINews\<close> passes no URL to
  \<open>fetch\<close>. When either key is absent, or the stored time is the cache duration or more
  before now, it passes one URL per configured feed, in the order of the feeds: the
  conversion endpoint followed by the encoded feed URL.
\<close>

theorem requests_by_cache_state:
  "CACHE_DURATION_MS = 3600000 \<and>
   (aiNewsCache s = Some d \<and> d \<noteq> [] \<and> JSON_parse P d = Some news \<and>
    aiNewsCacheTime s = Some t \<and> parseInt t = Some n \<and> now E - n < CACHE_DURATION_MS
    \<longrightarrow> requests (fetchAINews P E s) = requests s) \<and>
   (aiNewsCache s = None \<or> aiNewsCacheTime s = None \<or>
    (aiNewsCacheTime s = Some t \<and> parseInt t = Some n \<and> CACHE_DURATION_MS \<le> now E - n)
    \<longrightarrow> requests (fetchAINews P E s) = requests s @ map request_url RSS_FEEDS \<and>
        length (map request_url RSS_FEEDS) = length RSS_FEEDS \<and>
        distinct (map request_url RSS_FEEDS))"
proof -
  have hit: "requests (fetchAINews P E s) = requests s"
    if "aiNewsCache s = Some d \<and> d \<noteq> [] \<and> JSON_parse P d = Some news \<and>
        aiNewsCacheTime s = Some t \<and> parseInt t = Some n \<and> now E - n < CACHE_DURATION_MS"
  proof -
    from that have "cache_is_valid P E s" unfolding cache_is_valid_iff by blast
    then show ?thesis by (rule fetchAINews_cached_fields(1))
  qed
  have miss: "requests (fetchAINews P E s) = requests s @ map request_url RSS_FEEDS"
    if "aiNewsCache s = None \<or> aiNewsCacheTime s = None \<or>
        (aiNewsCacheTime s = Some t \<and> parseInt t = Some n \<and> CACHE_DURATION_MS \<le> now E - n)"
  proof -
    from that have "\<not> cache_is_valid P E s" unfolding cache_is_valid_iff by auto
    then show ?thesis by (rule requests_fetchAINews_fresh)
  qed
  have d: "distinct (map request_url RSS_FEEDS)"
    unfolding request_urls by simp
  from hit miss d show ?thesis by (simp add: CACHE_DURATION_MS_def)
qed

text \<open>The theorem on a page whose entry was stored 1000 seconds before now, on the
  freshly loaded page, and on a page whose entry was stored long ago.\<close>

theorem requests_by_cache_state_witness:
  "aiNewsCache (cached_page ''1699999000000'') = Some ''[]'' \<and>
   JSON_parse sample_platform ''[]'' = Some [] \<and>
   aiNewsCacheTime (cached_page ''1699999000000'') = Some ''1699999000000'' \<and>
   parseInt ''1699999000000'' = Some 1699999000000 \<and>
   now offline_env - 1699999000000 < CACHE_DURATION_MS \<and>
   requests (fetchAINews sample_platform offline_env (cached_page ''1699999000000'')) = [] \<and>
   aiNewsCache initial_page = None \<and>
   requests (fetchAINews sample_platform offline_env initial_page) = map request_url RSS_FEEDS \<and>
   aiNewsCacheTime stale_page = Some ''1600000000000'' \<and>
   parseInt ''1600000000000'' = Some 1600000000000 \<and>
   CACHE_DURATION_MS \<le> now offline_env - 1600000000000 \<and>
   requests (fetchAINews sample_platform offline_env stale_page) = map request_url RSS_FEEDS \<and>
   length (map request_url RSS_FEEDS) = 3"
proof -
  have a1: "aiNewsCache (cached_page ''1699999000000'') = Some ''[]''"
    and a2: "aiNewsCacheTime (cached_page ''1699999000000'') = Some ''1699999000000''"
    and a3: "requests (cached_page ''1699999000000'') = []"
    by (simp_all add: cached_page_def initial_page_def)
  have a4: "JSON_parse sample_platform ''[]'' = Some []" by (simp add: sample_platform_def)
  have a5: "now offline_env - 1699999000000 < CACHE_DURATION_MS"
    by (simp add: offline_env_def CACHE_DURATION_MS_def)
  have a6: "''[]'' \<noteq> ([] :: string)" by simp
  from requests_by_cache_state[of "cached_page ''1699999000000''" "''[]''" sample_platform "[]"
      "''1699999000000''" 1699999000000 offline_env] a1 a2 a4 a5 a6 sample_parseInt(1)
  have "requests (fetchAINews sample_platform offline_env (cached_page ''1699999000000''))
      = requests (cached_page ''1699999000000'')" by blast
  then have 1: "requests (fetchAINews sample_platform offline_env (cached_page ''1699999000000'')) = []"
    unfolding a3 .
  have b1: "aiNewsCache initial_page = None" by (simp add: initial_page_def)
  from requests_by_cache_state[of initial_page d sample_platform news t n offline_env] b1
  have "requests (fetchAINews sample_platform offline_env initial_page)
      = requests initial_page @ map request_url RSS_FEEDS" for d news t n by blast
  then have 2: "requests (fetchAINews sample_platform offline_env initial_page) = map request_url RSS_FEEDS"
    unfolding requests_initial by simp
  have c1: "aiNewsCacheTime stale_page = Some ''1600000000000''"
    and c2: "requests stale_page = []"
    by (simp_all add: stale_page_def initial_page_def)
  have c3: "CACHE_DURATION_MS \<le> now offline_env - 1600000000000"
    by (simp add: offline_env_def CACHE_DURATION_MS_def)
  from requests_by_cache_state[of stale_page d sample_platform news "''1600000000000''"
      1600000000000 offline_env] c1 c3 sample_parseInt(2)
  have "requests (fetchAINews sample_platform offline_env stale_page)
      = requests stale_page @ map request_url RSS_FEEDS" for d news by blast
  then have 3: "requests (fetchAINews sample_platform offline_env stale_page) = map request_url RSS_FEEDS"
    unfolding c2 by simp
  have 4: "length (map request_url RSS_FEEDS) = 3" by (simp add: RSS_FEEDS_def)
  from a1 a4 a2 sample_parseInt a5 1 b1 2 c1 c3 3 4 show ?thesis by blast
qed

text \<open>
  C9. When \<open>JSON.parse\<close> rejects the stored collection, the \<open>try\<close> block does what
  it does with nothing stored that is fresh: it goes on to the requests, one per feed. No
  \<open>SyntaxError\<close> ever leaves the \<open>try\<close> block, and \<open>fetchAINews\<close> itself returns a
  page in every case.
\<close>

theorem malformed_cache_is_refetched:
  "(aiNewsCache s = Some d \<and> JSON_parse P d = None \<longrightarrow>
      try_block P E s = fetch_fresh P E s \<and>
      requests (fetchAINews P E s) = requests s @ map request_url RSS_FEEDS) \<and>
   try_block P E s \<noteq> Inl (SyntaxError, s')"
proof -
  have "try_block P E s = fetch_fresh P E s \<and>
      requests (fetchAINews P E s) = requests s @ map request_url RSS_FEEDS"
    if "aiNewsCache s = Some d \<and> JSON_parse P d = None"
  proof -
    from that have n: "\<not> cache_is_valid P E s" by (simp add: cache_is_valid_def)
    from try_block_invalid[OF n] requests_fetchAINews_fresh[OF n] show ?thesis by blast
  qed
  with try_block_never_SyntaxError[of P E s s'] show ?thesis by blast
qed

text \<open>The theorem on a page whose stored collection is the text \<open>[{\<close>, stored 1000
  seconds before now.\<close>

theorem malformed_cache_is_refetched_witness:
  "aiNewsCache corrupt_page = Some ''[{'' \<and> JSON_parse sample_platform ''[{'' = None \<and>
   cache_is_fresh offline_env corrupt_page \<and>
   try_block sample_platform offline_env corrupt_page
     = fetch_fresh sample_platform offline_env corrupt_page \<and>
   requests (fetchAINews sample_platform offline_env corrupt_page) = map request_url RSS_FEEDS"
proof -
  have a: "aiNewsCache corrupt_page = Some ''[{''" and r: "requests corrupt_page = []"
    by (simp_all add: corrupt_page_def initial_page_def)
  have b: "JSON_parse sample_platform ''[{'' = None" by (simp add: sample_platform_def)
  have f: "cache_is_fresh offline_env corrupt_page"
    by (simp add: cache_is_fresh_def corrupt_page_def initial_page_def truthy_def
        sample_parseInt offline_env_def CACHE_DURATION_MS_def)
  from malformed_cache_is_refetched[of corrupt_page "''[{''" sample_platform offline_env] a b
  have "try_block sample_platform offline_env corrupt_page
          = fetch_fresh sample_platform offline_env corrupt_page"
    and "requests (fetchAINews sample_platform offline_env corrupt_page)
          = requests corrupt_page @ map request_url RSS_FEEDS" by blast+
  with a b f r show ?thesis by simp
qed

subsection \<open>Order and duplicates\<close>

text \<open>
  C7 (as amended). When the run collects its results without an exception and the publish
  date of every item parses, the date of an item that has none being the time at which it
  was pushed, the final collection is sorted by publish date, newest first: every earlier
  article is at least as recent as every later one, adjacent ones in particular. An item
  with an absent or empty publish date gets the current time as its date. A date that is
  present and does not parse is kept as it is.
\<close>

theorem final_collection_newest_first:
  assumes "\<not> cache_is_valid P E s"
    and "Null \<notin> set (settled_bodies E)"
    and "\<forall>item \<in> set (feed_items (settled_bodies E)).
           \<forall>k. date_parse P (or_else (item_pubDate item) (clock_iso E k)) \<noteq> None"
  shows "sorted_wrt (\<lambda>a b. publish_time P t b \<le> publish_time P t a) (allNews (fetchAINews P E s)) \<and>
         (\<forall>i. Suc i < length (allNews (fetchAINews P E s)) \<longrightarrow>
              publish_time P t (allNews (fetchAINews P E s) ! Suc i)
                \<le> publish_time P t (allNews (fetchAINews P E s) ! i)) \<and>
         (\<forall>item k. \<not> truthy (item_pubDate item) \<longrightarrow>
              pubDate (make_article P (clock_iso E k) item) = clock_iso E k) \<and>
         (\<forall>item k d. item_pubDate item = Some d \<and> d \<noteq> [] \<longrightarrow>
              pubDate (make_article P (clock_iso E k) item) = d)"
proof -
  from assms(2) pushed_articles_cases[of E P] obtain pushed where
    p: "pushed_articles P E = Inr pushed" by blast
  have eq: "allNews (fetchAINews P E s) = final_collection P pushed"
    by (rule allNews_fetchAINews_fresh[OF assms(1) p])
  have "\<forall>a \<in> set pushed. date_parse P (pubDate a) \<noteq> None"
    by (rule pushed_dates_parse[OF p assms(3)])
  then have sorted: "sorted_wrt (\<lambda>a b. publish_time P t b \<le> publish_time P t a)
      (allNews (fetchAINews P E s))"
    unfolding eq by (rule sorted_final_collection)
  then have adjacent: "\<forall>i. Suc i < length (allNews (fetchAINews P E s)) \<longrightarrow>
      publish_time P t (allNews (fetchAINews P E s) ! Suc i)
        \<le> publish_time P t (allNews (fetchAINews P E s) ! i)"
    by (simp add: sorted_wrt_iff_nth_less)
  have absent: "\<forall>item k. \<not> truthy (item_pubDate item) \<longrightarrow>
      pubDate (make_article P (clock_iso E k) item) = clock_iso E k"
    by (auto simp: make_article_fields truthy_def or_else_def split: option.splits)
  have present: "\<forall>item k d. item_pubDate item = Some d \<and> d \<noteq> [] \<longrightarrow>
      pubDate (make_article P (clock_iso E k) item) = d"
    by (simp add: make_article_fields or_else_def)
  from sorted adjacent absent present show ?thesis by blast
qed

text \<open>The theorem on the run whose first feed returns an item of 2020, an item with no
  date and an item of January 2023.\<close>

theorem final_collection_newest_first_witness:
  "\<not> cache_is_valid sample_platform (first_feed_env (ok_body dated_feed)) initial_page \<and>
   Null \<notin> set (settled_bodies (first_feed_env (ok_body dated_feed))) \<and>
   map pubDate (allNews (fetchAINews sample_platform (first_feed_env (ok_body dated_feed)) initial_page))
     = [''2023-11-14T22:13:20.000Z'', ''2023-01-01T00:00:00.000Z''] \<and>
   sorted_wrt (\<lambda>a b. publish_time sample_platform 0 b \<le> publish_time sample_platform 0 a)
     (allNews (fetchAINews sample_platform (first_feed_env (ok_body dated_feed)) initial_page))"
proof -
  let ?E = "first_feed_env (ok_body dated_feed)"
  note n = initial_page_not_valid[of sample_platform ?E]
  note z = no_null_first_feed[of dated_feed]
  have d: "\<forall>item \<in> set (feed_items (settled_bodies ?E)).
      \<forall>k. date_parse sample_platform (or_else (item_pubDate item) (clock_iso ?E k)) \<noteq> None"
    unfolding feed_items_first_feed
    by (simp add: dated_feed_def dated_item_def or_else_def first_feed_env_def sample_dates)
  from final_collection_newest_first[OF n z d, of 0]
  have s: "sorted_wrt (\<lambda>a b. publish_time sample_platform 0 b \<le> publish_time sample_platform 0 a)
     (allNews (fetchAINews sample_platform ?E initial_page))" by blast
  have "map pubDate (allNews (fetchAINews sample_platform ?E initial_page))
     = [''2023-11-14T22:13:20.000Z'', ''2023-01-01T00:00:00.000Z'']"
    unfolding allNews_fetchAINews_fresh[OF n pushed_articles_first_feed_map] final_dated_feed
    by (simp add: dated_item_fields or_else_def)
  with n z s show ?thesis by blast
qed

text \<open>
  C7 as stated reads an unparseable date as the current time. The run of 2023-11-14 whose
  first feed returns an item of 2020 followed by an item dated \<open>not a date\<close> keeps the
  two in that order: the item of 2020 stands before the one whose date would be now.
\<close>

theorem unparseable_date_counterexample:
  "now (first_feed_env (ok_body two_item_feed)) = 1700000000000 \<and>
   map pubDate (allNews (fetchAINews sample_platform (first_feed_env (ok_body two_item_feed)) initial_page))
     = [''2020-01-01T00:00:00.000Z'', ''not a date''] \<and>
   \<not> sorted_wrt (\<lambda>a b. publish_time sample_platform 1700000000000 b
                          \<le> publish_time sample_platform 1700000000000 a)
       (allNews (fetchAINews sample_platform (first_feed_env (ok_body two_item_feed)) initial_page))"
proof -
  let ?E = "first_feed_env (ok_body two_item_feed)"
  note n = initial_page_not_valid[of sample_platform ?E]
  have eq: "allNews (fetchAINews sample_platform ?E initial_page)
      = map (make_article sample_platform ''2023-11-14T22:13:20.000Z'') two_item_feed"
    unfolding allNews_fetchAINews_fresh[OF n pushed_articles_first_feed_map] final_two_item_feed ..
  have a: "now ?E = 1700000000000" by (simp add: first_feed_env_def)
  have b: "map pubDate (allNews (fetchAINews sample_platform ?E initial_page))
     = [''2020-01-01T00:00:00.000Z'', ''not a date'']"
    unfolding eq by (simp add: two_item_feed_def dated_item_fields or_else_def)
  have c: "\<not> sorted_wrt (\<lambda>a b. publish_time sample_platform 1700000000000 b
                          \<le> publish_time sample_platform 1700000000000 a)
       (allNews (fetchAINews sample_platform ?E initial_page))"
    unfolding eq
    by (simp add: two_item_feed_def publish_time_def dated_item_fields or_else_def sample_dates)
  from a b c show ?thesis by blast
qed

text \<open>
  C6 (as amended). For every article pushed in a run that ends without an exception, the
  final collection holds exactly one article with that title; it is one of the pushed
  articles, namely the first with that title after the sort. When the publish date of
  every pushed article parses, the one kept is at least as recent as every pushed article
  with that title, and every pushed article with that title that stands before it in feed
  order is strictly older: of the articles with the latest date it is the earliest in
  feed order.
\<close>

theorem duplicates_keep_newest:
  assumes "\<not> cache_is_valid P E s"
    and "pushed_articles P E = Inr pushed"
    and "x \<in> set pushed"
  shows "\<exists>a. filter (\<lambda>b. title b = title x) (allNews (fetchAINews P E s)) = [a] \<and>
             a \<in> set pushed \<and>
             (\<exists>ys zs. js_sort (compare_pubDate P) pushed = ys @ a # zs \<and>
                       (\<forall>b \<in> set ys. title b \<noteq> title x)) \<and>
             ((\<forall>b \<in> set pushed. date_parse P (pubDate b) \<noteq> None) \<longrightarrow>
              (\<forall>b \<in> set pushed. title b = title x \<longrightarrow>
                 publish_time P t b \<le> publish_time P t a) \<and>
              (\<exists>us vs. pushed = us @ a # vs \<and>
                 (\<forall>b \<in> set us. title b = title x \<longrightarrow>
                    publish_time P t b < publish_time P t a)))"
proof -
  have eq: "allNews (fetchAINews P E s) = final_collection P pushed"
    by (rule allNews_fetchAINews_fresh[OF assms(1,2)])
  from final_collection_keeps_one[OF assms(3), of P] obtain a ys zs where
    a: "filter (\<lambda>b. title b = title x) (final_collection P pushed) = [a]" "a \<in> set pushed"
      "title a = title x"
      "js_sort (compare_pubDate P) pushed = ys @ a # zs" "title a \<notin> title ` set ys"
    by blast
  have "title b \<noteq> title x" if "b \<in> set ys" for b
  proof
    assume "title b = title x"
    moreover from that have "title b \<in> title ` set ys" by (rule imageI)
    ultimately show False using a(3,5) by simp
  qed
  with a(4) have first: "\<exists>ys zs. js_sort (compare_pubDate P) pushed = ys @ a # zs \<and>
      (\<forall>b \<in> set ys. title b \<noteq> title x)" by blast
  have newest: "publish_time P t b \<le> publish_time P t a"
    if "\<forall>b \<in> set pushed. date_parse P (pubDate b) \<noteq> None" "b \<in> set pushed" "title b = title x"
    for b
    by (rule final_collection_keeps_newest[OF assms(3) that(1) a(1) that(2,3)])
  have earliest: "\<exists>us vs. pushed = us @ a # vs \<and>
      (\<forall>b \<in> set us. title b = title x \<longrightarrow> publish_time P t b < publish_time P t a)"
    if "\<forall>b \<in> set pushed. date_parse P (pubDate b) \<noteq> None"
    by (rule final_collection_keeps_first_newest[OF assms(3) that a(1)])
  from a(1,2) first newest earliest show ?thesis unfolding eq by blast
qed

text \<open>The theorem on the run whose first feed returns two items titled \<open>Same title\<close>,
  of 2020 and of January 2023, around an item with no date: the one of 2023 is kept.\<close>

theorem duplicates_keep_newest_witness:
  "\<not> cache_is_valid sample_platform (first_feed_env (ok_body dated_feed)) initial_page \<and>
   pushed_articles sample_platform (first_feed_env (ok_body dated_feed))
     = Inr (map (make_article sample_platform ''2023-11-14T22:13:20.000Z'') dated_feed) \<and>
   map (\<lambda>a. (title a, pubDate a))
       (map (make_article sample_platform ''2023-11-14T22:13:20.000Z'') dated_feed)
     = [(''Same title'', ''2020-01-01T00:00:00.000Z''),
        (''Other title'', ''2023-11-14T22:13:20.000Z''),
        (''Same title'', ''2023-01-01T00:00:00.000Z'')] \<and>
   map (\<lambda>a. (title a, pubDate a))
       (allNews (fetchAINews sample_platform (first_feed_env (ok_body dated_feed)) initial_page))
     = [(''Other title'', ''2023-11-14T22:13:20.000Z''),
        (''Same title'', ''2023-01-01T00:00:00.000Z'')] \<and>
   (\<exists>a. filter (\<lambda>b. title b = ''Same title'')
            (allNews (fetchAINews sample_platform (first_feed_env (ok_body dated_feed)) initial_page))
          = [a])"
proof -
  let ?E = "first_feed_env (ok_body dated_feed)"
  let ?c = "''2023-11-14T22:13:20.000Z''"
  let ?x = "make_article sample_platform ?c (dated_item ''Same title'' (Some ''2020-01-01T00:00:00.000Z''))"
  note n = initial_page_not_valid[of sample_platform ?E]
  note p = pushed_articles_first_feed_map[of sample_platform dated_feed]
  have x: "?x \<in> set (map (make_article sample_platform ?c) dated_feed)"
    by (simp add: dated_feed_def)
  have tx: "title ?x = ''Same title''" by (simp add: dated_item_fields or_else_def)
  from duplicates_keep_newest[OF n p x, of 0] obtain a where
    "filter (\<lambda>b. title b = title ?x)
       (allNews (fetchAINews sample_platform ?E initial_page)) = [a]" by blast
  then have 1: "\<exists>a. filter (\<lambda>b. title b = ''Same title'')
       (allNews (fetchAINews sample_platform ?E initial_page)) = [a]"
    unfolding tx by blast
  have 2: "map (\<lambda>a. (title a, pubDate a)) (map (make_article sample_platform ?c) dated_feed)
     = [(''Same title'', ''2020-01-01T00:00:00.000Z''),
        (''Other title'', ''2023-11-14T22:13:20.000Z''),
        (''Same title'', ''2023-01-01T00:00:00.000Z'')]"
    by (simp add: dated_feed_def dated_item_fields or_else_def)
  have 3: "map (\<lambda>a. (title a, pubDate a))
       (allNews (fetchAINews sample_platform ?E initial_page))
     = [(''Other title'', ''2023-11-14T22:13:20.000Z''),
        (''Same title'', ''2023-01-01T00:00:00.000Z'')]"
    unfolding allNews_fetchAINews_fresh[OF n p] final_dated_feed
    by (simp add: dated_item_fields or_else_def)
  from n p 2 3 1 show ?thesis by blast
qed

text \<open>
  C6 as stated has the article with the later publish date kept in every run. Two runs
  of 2023-11-14 keep the older one. In the first the feed returns two items titled
  \<open>Same title\<close>, of 2020 and dated \<open>not a date\<close>: the only comparison gives \<open>NaN\<close>,
  which every stable sort reads as "equal", so the item of 2020 stays first and is kept,
  while the date of the other, read as the current time, is the later one. In the second
  the feed returns two items titled \<open>Same title\<close>, of 2020 and of 2023, around an item
  dated \<open>not a date\<close>: every comparison of neighbours gives \<open>NaN\<close>, the three stay in
  place in the model's sort, and the item of 2020 is kept.
\<close>

theorem duplicates_keep_oldest_counterexample:
  "map (\<lambda>a. (title a, pubDate a))
       (allNews (fetchAINews sample_platform (first_feed_env (ok_body undated_duplicate_feed))
                   initial_page))
     = [(''Same title'', ''2020-01-01T00:00:00.000Z'')] \<and>
   map (\<lambda>a. (title a, publish_time sample_platform 1700000000000 a))
       (map (make_article sample_platform ''2023-11-14T22:13:20.000Z'') undated_duplicate_feed)
     = [(''Same title'', 1577836800000), (''Same title'', 1700000000000)] \<and>
   map (\<lambda>a. (title a, pubDate a))
       (map (make_article sample_platform ''2023-11-14T22:13:20.000Z'') undated_feed)
     = [(''Same title'', ''2020-01-01T00:00:00.000Z''),
        (''Other title'', ''not a date''),
        (''Same title'', ''2023-01-01T00:00:00.000Z'')] \<and>
   pushed_articles sample_platform (first_feed_env (ok_body undated_feed))
     = Inr (map (make_article sample_platform ''2023-11-14T22:13:20.000Z'') undated_feed) \<and>
   map (\<lambda>a. (title a, pubDate a))
       (allNews (fetchAINews sample_platform (first_feed_env (ok_body undated_feed)) initial_page))
     = [(''Same title'', ''2020-01-01T00:00:00.000Z''), (''Other title'', ''not a date'')] \<and>
   date_parse sample_platform ''2020-01-01T00:00:00.000Z'' = Some 1577836800000 \<and>
   date_parse sample_platform ''2023-01-01T00:00:00.000Z'' = Some 1672531200000"
proof -
  let ?E = "first_feed_env (ok_body undated_feed)"
  let ?D = "first_feed_env (ok_body undated_duplicate_feed)"
  let ?c = "''2023-11-14T22:13:20.000Z''"
  note n = initial_page_not_valid[of sample_platform ?E]
  note p = pushed_articles_first_feed_map[of sample_platform undated_feed]
  note nd = initial_page_not_valid[of sample_platform ?D]
  note pd = pushed_articles_first_feed_map[of sample_platform undated_duplicate_feed]
  have d1: "map (\<lambda>a. (title a, pubDate a)) (allNews (fetchAINews sample_platform ?D initial_page))
     = [(''Same title'', ''2020-01-01T00:00:00.000Z'')]"
    unfolding allNews_fetchAINews_fresh[OF nd pd] final_undated_duplicate_feed
    by (simp add: dated_item_fields or_else_def)
  have d2: "map (\<lambda>a. (title a, publish_time sample_platform 1700000000000 a))
       (map (make_article sample_platform ?c) undated_duplicate_feed)
     = [(''Same title'', 1577836800000), (''Same title'', 1700000000000)]"
    by (simp add: undated_duplicate_feed_def publish_time_def dated_item_fields or_else_def
        sample_dates)
  have 1: "map (\<lambda>a. (title a, pubDate a)) (map (make_article sample_platform ?c) undated_feed)
     = [(''Same title'', ''2020-01-01T00:00:00.000Z''),
        (''Other title'', ''not a date''),
        (''Same title'', ''2023-01-01T00:00:00.000Z'')]"
    by (simp add: undated_feed_def dated_item_fields or_else_def)
  have 2: "map (\<lambda>a. (title a, pubDate a))
       (allNews (fetchAINews sample_platform ?E initial_page))
     = [(''Same title'', ''2020-01-01T00:00:00.000Z''), (''Other title'', ''not a date'')]"
    unfolding allNews_fetchAINews_fresh[OF n p] final_undated_feed
    by (simp add: dated_item_fields or_else_def)
  from d1 d2 1 p 2 sample_dates(1,2) show ?thesis by blast
qed

end
